theory Spec2Isabelle
  imports Complex_Main "HOL-Library.Signed_Division"
begin

section \<open>Maidenhead grid squares: the header gridsquare.hpp\<close>

text \<open>
  The namespace \<^verbatim>\<open>GridSquare\<close> of \<^verbatim>\<open>gridsquare.hpp\<close> is embedded function by function.

  \<^item> A \<^verbatim>\<open>std::string\<close> is a \<open>string\<close> (a list of 8-bit characters).
  \<^item> \<^verbatim>\<open>std::invalid_argument\<close> is a value of the type \<open>error\<close>; a function that can
    throw returns \<open>error + 'a\<close>.
  \<^item> A \<^verbatim>\<open>double\<close> is a \<open>real\<close>: every arithmetic operation is exact, and
    \<^verbatim>\<open>std::sin\<close>, \<^verbatim>\<open>std::cos\<close>, \<^verbatim>\<open>std::sqrt\<close> and \<^verbatim>\<open>std::atan2\<close> are the mathematical
    functions. Rounding, infinities and NaN of binary64 are outside this model; a theorem
    about a \<^verbatim>\<open>double\<close> is a theorem about the exact computation. Two properties are
    decided by rounding, the range of the bearing and the range of the Haversine term;
    for them \<^verbatim>\<open>normalizeAngle\<close>, the two angle conversions, \<^verbatim>\<open>calculateDistance\<close> and
    \<^verbatim>\<open>calculateBearing\<close> are embedded a second time, with the name suffix \<open>_b64\<close>,
    rounded as binary64 rounds them.
\<close>

subsection \<open>Characters\<close>

text \<open>
  The program never calls \<^verbatim>\<open>setlocale\<close>, so \<^verbatim>\<open>::toupper\<close>, \<^verbatim>\<open>std::isalpha\<close> and
  \<^verbatim>\<open>std::isdigit\<close> are those of the "C" locale: the letters are \<open>A\<close> to \<open>Z\<close> and
  \<open>a\<close> to \<open>z\<close>, the digits are \<open>0\<close> to \<open>9\<close>, and only \<open>a\<close> to \<open>z\<close> change under
  \<^verbatim>\<open>toupper\<close>.
\<close>

definition isalpha :: "char \<Rightarrow> bool" where
  "isalpha c = (let n = (of_char c :: nat) in (65 \<le> n \<and> n \<le> 90) \<or> (97 \<le> n \<and> n \<le> 122))"

definition isdigit :: "char \<Rightarrow> bool" where
  "isdigit c = (let n = (of_char c :: nat) in 48 \<le> n \<and> n \<le> 57)"

definition toupper :: "char \<Rightarrow> char" where
  "toupper c = (let n = (of_char c :: nat) in if 97 \<le> n \<and> n \<le> 122 then char_of (n - 32) else c)"

text \<open>The difference of two characters, as the \<^verbatim>\<open>int\<close> that C++ computes for \<^verbatim>\<open>c - 'A'\<close>.\<close>

definition char_minus :: "char \<Rightarrow> char \<Rightarrow> int" where
  "char_minus c d = of_char c - of_char d"

subsection \<open>Data\<close>

datatype Unit = KILOMETERS | MILES | NAUTICAL_MILES

record Coordinate =
  latitude :: real
  longitude :: real

record DistanceResult =
  distance :: real
  bearing :: real
  backBearing :: real
  from_coord :: Coordinate
  to_coord :: Coordinate

text \<open>The only exception of the header, with the message it carries.\<close>

datatype error = invalid_argument string

definition EARTH_RADIUS_KM :: real where "EARTH_RADIUS_KM = 6371"
definition EARTH_RADIUS_MI :: real where "EARTH_RADIUS_MI = 3959"
definition EARTH_RADIUS_NM :: real where "EARTH_RADIUS_NM = 3440"

subsection \<open>toLatLon\<close>

text \<open>
  The argument is taken by value and upper-cased in place; the checks and the updates of
  \<^verbatim>\<open>lon\<close> and \<^verbatim>\<open>lat\<close> follow in the order of the source. An index is read only under
  the length test that guards it in the source.
\<close>

definition toLatLon :: "string \<Rightarrow> error + Coordinate" where
  "toLatLon grid0 =
    (let grid = map toupper grid0;
         len = length grid
     in
       if len \<noteq> 2 \<and> len \<noteq> 4 \<and> len \<noteq> 6 \<and> len \<noteq> 8 then
         Inl (invalid_argument ''Grid square must be 2, 4, 6, or 8 characters'')
       else if \<not> isalpha (grid ! 0) \<or> \<not> isalpha (grid ! 1) then
         Inl (invalid_argument ''First two characters must be letters'')
       else if len \<ge> 4 \<and> (\<not> isdigit (grid ! 2) \<or> \<not> isdigit (grid ! 3)) then
         Inl (invalid_argument ''Characters 3-4 must be digits'')
       else if len \<ge> 6 \<and> (\<not> isalpha (grid ! 4) \<or> \<not> isalpha (grid ! 5)) then
         Inl (invalid_argument ''Characters 5-6 must be letters'')
       else if len = 8 \<and> (\<not> isdigit (grid ! 6) \<or> \<not> isdigit (grid ! 7)) then
         Inl (invalid_argument ''Characters 7-8 must be digits'')
       else
         let lon = real_of_int (char_minus (grid ! 0) CHR ''A'') * 20 - 180;
             lat = real_of_int (char_minus (grid ! 1) CHR ''A'') * 10 - 90;
             lon = (if len \<ge> 4 then lon + real_of_int (char_minus (grid ! 2) CHR ''0'') * 2 else lon);
             lat = (if len \<ge> 4 then lat + real_of_int (char_minus (grid ! 3) CHR ''0'') * 1 else lat);
             lon = (if len \<ge> 6 then lon + real_of_int (char_minus (grid ! 4) CHR ''A'') * (2 / 24) else lon);
             lat = (if len \<ge> 6 then lat + real_of_int (char_minus (grid ! 5) CHR ''A'') * (1 / 24) else lat);
             lon = (if len = 8 then lon + real_of_int (char_minus (grid ! 6) CHR ''0'') * (2 / 240) else lon);
             lat = (if len = 8 then lat + real_of_int (char_minus (grid ! 7) CHR ''0'') * (1 / 240) else lat);
             lon = (if len = 2 then lon + 10
                    else if len = 4 then lon + 1
                    else if len = 6 then lon + 1 / 24
                    else if len = 8 then lon + 1 / 240
                    else lon);
             lat = (if len = 2 then lat + 5
                    else if len = 4 then lat + 0.5
                    else if len = 6 then lat + 1 / 48
                    else if len = 8 then lat + 1 / 480
                    else lat)
         in Inr \<lparr>latitude = lat, longitude = lon\<rparr>)"

subsection \<open>The locator format, in the words of the specification\<close>

text \<open>
  The five rejection rules of the decoder's contract, on the case-normalised string:
  a bad length; characters 1-2 not both letters; with length at least 4, characters 3-4
  not both digits; with length at least 6, characters 5-6 not both letters; with length
  8, characters 7-8 not both digits.
\<close>

definition invalid_format :: "string \<Rightarrow> bool" where
  "invalid_format s =
    (length s \<notin> {2, 4, 6, 8}
     \<or> \<not> (isalpha (s ! 0) \<and> isalpha (s ! 1))
     \<or> (length s \<ge> 4 \<and> \<not> (isdigit (s ! 2) \<and> isdigit (s ! 3)))
     \<or> (length s \<ge> 6 \<and> \<not> (isalpha (s ! 4) \<and> isalpha (s ! 5)))
     \<or> (length s = 8 \<and> \<not> (isdigit (s ! 6) \<and> isdigit (s ! 7))))"

text \<open>
  The centre of a locator's cell as the specification gives it: the tiers that are
  present, then half of the finest tier's width and height.
\<close>

definition half_width :: "nat \<Rightarrow> real" where
  "half_width n = (if n = 2 then 10 else if n = 4 then 1 else if n = 6 then 1 / 24 else 1 / 240)"

definition half_height :: "nat \<Rightarrow> real" where
  "half_height n = (if n = 2 then 5 else if n = 4 then 1 / 2 else if n = 6 then 1 / 48 else 1 / 480)"

definition centre_longitude :: "string \<Rightarrow> real" where
  "centre_longitude s =
     real_of_int (char_minus (s ! 0) CHR ''A'') * 20 - 180
     + (if length s \<ge> 4 then real_of_int (char_minus (s ! 2) CHR ''0'') * 2 else 0)
     + (if length s \<ge> 6 then real_of_int (char_minus (s ! 4) CHR ''A'') * (2 / 24) else 0)
     + (if length s = 8 then real_of_int (char_minus (s ! 6) CHR ''0'') * (2 / 240) else 0)
     + half_width (length s)"

definition centre_latitude :: "string \<Rightarrow> real" where
  "centre_latitude s =
     real_of_int (char_minus (s ! 1) CHR ''A'') * 10 - 90
     + (if length s \<ge> 4 then real_of_int (char_minus (s ! 3) CHR ''0'') * 1 else 0)
     + (if length s \<ge> 6 then real_of_int (char_minus (s ! 5) CHR ''A'') * (1 / 24) else 0)
     + (if length s = 8 then real_of_int (char_minus (s ! 7) CHR ''0'') * (1 / 240) else 0)
     + half_height (length s)"

subsection \<open>Library functions of \<^verbatim>\<open><cmath>\<close>\<close>

text \<open>
  \<^verbatim>\<open>std::fmod x y\<close> is \<open>x - n * y\<close> for the quotient \<open>x / y\<close> truncated towards zero;
  \<^verbatim>\<open>std::round\<close> rounds halfway cases away from zero; \<^verbatim>\<open>std::atan2 y x\<close> is the angle
  of the point \<open>(x, y)\<close>, between \<open>-pi\<close> and \<open>pi\<close>, and \<open>0\<close> at the origin.
\<close>

definition fmod :: "real \<Rightarrow> real \<Rightarrow> real" where
  "fmod x y = x - of_int (if 0 \<le> x / y then \<lfloor>x / y\<rfloor> else \<lceil>x / y\<rceil>) * y"

definition std_round :: "real \<Rightarrow> int" where
  "std_round x = (if 0 \<le> x then \<lfloor>x + 1 / 2\<rfloor> else \<lceil>x - 1 / 2\<rceil>)"

definition atan2 :: "real \<Rightarrow> real \<Rightarrow> real" where
  "atan2 y x =
     (if 0 < x then arctan (y / x)
      else if x < 0 then (if 0 \<le> y then arctan (y / x) + pi else arctan (y / x) - pi)
      else if 0 < y then pi / 2
      else if y < 0 then - (pi / 2)
      else 0)"

subsection \<open>Angles\<close>

definition toRadians :: "real \<Rightarrow> real" where
  "toRadians degrees = degrees * pi / 180"

definition toDegrees :: "real \<Rightarrow> real" where
  "toDegrees radians = radians * 180 / pi"

definition normalizeAngle :: "real \<Rightarrow> real" where
  "normalizeAngle angle0 =
     (let angle = fmod angle0 360;
          angle = (if angle < 0 then angle + 360 else angle)
      in angle)"

subsection \<open>calculateDistance and calculateBearing\<close>

definition calculateDistance :: "Coordinate \<Rightarrow> Coordinate \<Rightarrow> Unit \<Rightarrow> real" where
  "calculateDistance coord1 coord2 unit =
     (let R = (case unit of
                 KILOMETERS \<Rightarrow> EARTH_RADIUS_KM
               | MILES \<Rightarrow> EARTH_RADIUS_MI
               | NAUTICAL_MILES \<Rightarrow> EARTH_RADIUS_NM);
          lat1 = toRadians (latitude coord1);
          lat2 = toRadians (latitude coord2);
          dLat = toRadians (latitude coord2 - latitude coord1);
          dLon = toRadians (longitude coord2 - longitude coord1);
          a = sin (dLat / 2) * sin (dLat / 2) +
              cos lat1 * cos lat2 * sin (dLon / 2) * sin (dLon / 2);
          c = 2 * atan2 (sqrt a) (sqrt (1 - a))
      in R * c)"

text \<open>
  The Haversine intermediate, the local \<^verbatim>\<open>a\<close> of \<^verbatim>\<open>calculateDistance\<close>, as a function of
  the two coordinates.
\<close>

definition haversine :: "Coordinate \<Rightarrow> Coordinate \<Rightarrow> real" where
  "haversine coord1 coord2 =
     sin (toRadians (latitude coord2 - latitude coord1) / 2) *
     sin (toRadians (latitude coord2 - latitude coord1) / 2) +
     cos (toRadians (latitude coord1)) * cos (toRadians (latitude coord2)) *
     sin (toRadians (longitude coord2 - longitude coord1) / 2) *
     sin (toRadians (longitude coord2 - longitude coord1) / 2)"

definition calculateBearing :: "Coordinate \<Rightarrow> Coordinate \<Rightarrow> real" where
  "calculateBearing coord1 coord2 =
     (let lat1 = toRadians (latitude coord1);
          lat2 = toRadians (latitude coord2);
          dLon = toRadians (longitude coord2 - longitude coord1);
          x = sin dLon * cos lat2;
          y = cos lat1 * sin lat2 - sin lat1 * cos lat2 * cos dLon;
          bearing = atan2 x y
      in normalizeAngle (toDegrees bearing))"

subsection \<open>calculate\<close>

text \<open>The first locator is decoded first; an exception of either decoding leaves the function.\<close>

definition calculate :: "string \<Rightarrow> string \<Rightarrow> Unit \<Rightarrow> error + DistanceResult" where
  "calculate grid1 grid2 unit =
     (case toLatLon grid1 of
        Inl e \<Rightarrow> Inl e
      | Inr coord1 \<Rightarrow>
          (case toLatLon grid2 of
             Inl e \<Rightarrow> Inl e
           | Inr coord2 \<Rightarrow>
               Inr \<lparr>distance = calculateDistance coord1 coord2 unit,
                    bearing = calculateBearing coord1 coord2,
                    backBearing = calculateBearing coord2 coord1,
                    from_coord = coord1,
                    to_coord = coord2\<rparr>))"

subsection \<open>bearingToDirection\<close>

definition directions :: "string list" where
  "directions =
     [''N'', ''NNE'', ''NE'', ''ENE'', ''E'', ''ESE'', ''SE'', ''SSE'',
      ''S'', ''SSW'', ''SW'', ''WSW'', ''W'', ''WNW'', ''NW'', ''NNW'']"

text \<open>
  The conversion of the rounded quotient to \<^verbatim>\<open>int\<close> is undefined outside the range of
  a 32-bit \<^verbatim>\<open>int\<close>, the remainder \<^verbatim>\<open>%\<close> takes the sign of its left operand, and a
  negative index reads before the table: each of the two is \<open>None\<close> here.
\<close>

definition bearingToDirection :: "real \<Rightarrow> string option" where
  "bearingToDirection b =
     (let r = std_round (b / 22.5)
      in if r < - 2147483648 \<or> 2147483647 < r then None
         else let index = r smod 16
              in if index < 0 then None else Some (directions ! nat index))"

subsection \<open>Binary64 rounding\<close>

text \<open>
  A finite \<^verbatim>\<open>double\<close> is the real number it denotes. \<open>rnd\<close> is IEEE 754 rounding to
  nearest, ties to even, with 53 significant bits: \<open>binade x\<close> is the exponent \<open>e\<close> with
  \<open>2^e \<le> |x| < 2^(e+1)\<close>, \<open>ulp64 x\<close> the spacing \<open>2^(e-52)\<close> of the doubles there, and
  \<open>rne\<close> rounds the scaled value to an integer. The exponent is not bounded: the values
  below are far from overflow and from the subnormal range.
\<close>

definition rne :: "real \<Rightarrow> int" where
  "rne x =
     (let f = \<lfloor>x\<rfloor>; d = x - of_int f
      in if d < 1 / 2 then f
         else if 1 / 2 < d then f + 1
         else if even f then f else f + 1)"

definition binade :: "real \<Rightarrow> int" where
  "binade x = \<lfloor>log 2 \<bar>x\<bar>\<rfloor>"

definition ulp64 :: "real \<Rightarrow> real" where
  "ulp64 x = 2 powr (of_int (binade x) - 52)"

definition rnd :: "real \<Rightarrow> real" where
  "rnd x = (if x = 0 then 0 else of_int (rne (x / ulp64 x)) * ulp64 x)"

text \<open>
  The macro \<^verbatim>\<open>M_PI\<close> of \<^verbatim>\<open><cmath>\<close> is the double nearest to \<open>pi\<close>,
  \<^verbatim>\<open>0x1.921fb54442d18p+1\<close>.
\<close>

definition M_PI :: real where
  "M_PI = 884279719003555 / 2 ^ 48"

text \<open>
  \<^verbatim>\<open>radians * 180.0 / M_PI\<close> rounds after the product and after the quotient. In
  \<^verbatim>\<open>normalizeAngle\<close>, \<^verbatim>\<open>fmod\<close> and the comparison are exact in IEEE 754, and the sum
  \<^verbatim>\<open>angle += 360.0\<close> is rounded.
\<close>

definition toDegrees_b64 :: "real \<Rightarrow> real" where
  "toDegrees_b64 radians = rnd (rnd (radians * 180) / M_PI)"

definition normalizeAngle_b64 :: "real \<Rightarrow> real" where
  "normalizeAngle_b64 angle0 =
     (let angle = fmod angle0 360;
          angle = (if angle < 0 then rnd (angle + 360) else angle)
      in angle)"

text \<open>
  The library functions \<^verbatim>\<open>std::sin\<close>, \<^verbatim>\<open>std::cos\<close>, \<^verbatim>\<open>std::sqrt\<close> and \<^verbatim>\<open>std::atan2\<close>
  as a library that rounds correctly computes them: the double nearest to the exact
  value.
\<close>

definition sin_b64 :: "real \<Rightarrow> real" where
  "sin_b64 x = rnd (sin x)"

definition cos_b64 :: "real \<Rightarrow> real" where
  "cos_b64 x = rnd (cos x)"

definition sqrt_b64 :: "real \<Rightarrow> real" where
  "sqrt_b64 x = rnd (sqrt x)"

definition atan2_b64 :: "real \<Rightarrow> real \<Rightarrow> real" where
  "atan2_b64 y x = rnd (atan2 y x)"

text \<open>
  The conversion to radians, \<^verbatim>\<open>degrees * M_PI / 180.0\<close>, and \<^verbatim>\<open>calculateDistance\<close> with
  every difference, quotient, product and sum rounded in the order of the source;
  \<open>haversine_b64\<close> is its local \<^verbatim>\<open>a\<close>. The square root of a negative number is NaN, and
  NaN goes through \<^verbatim>\<open>std::atan2\<close> and the two products: the result is then \<open>None\<close>.
\<close>

definition toRadians_b64 :: "real \<Rightarrow> real" where
  "toRadians_b64 degrees = rnd (rnd (degrees * M_PI) / 180)"

definition haversine_b64 :: "Coordinate \<Rightarrow> Coordinate \<Rightarrow> real" where
  "haversine_b64 coord1 coord2 =
     (let lat1 = toRadians_b64 (latitude coord1);
          lat2 = toRadians_b64 (latitude coord2);
          dLat = toRadians_b64 (rnd (latitude coord2 - latitude coord1));
          dLon = toRadians_b64 (rnd (longitude coord2 - longitude coord1))
      in rnd (rnd (sin_b64 (rnd (dLat / 2)) * sin_b64 (rnd (dLat / 2))) +
              rnd (rnd (rnd (cos_b64 lat1 * cos_b64 lat2) * sin_b64 (rnd (dLon / 2))) *
                   sin_b64 (rnd (dLon / 2)))))"

definition calculateDistance_b64 :: "Coordinate \<Rightarrow> Coordinate \<Rightarrow> Unit \<Rightarrow> real option" where
  "calculateDistance_b64 coord1 coord2 unit =
     (let R = (case unit of
                 KILOMETERS \<Rightarrow> EARTH_RADIUS_KM
               | MILES \<Rightarrow> EARTH_RADIUS_MI
               | NAUTICAL_MILES \<Rightarrow> EARTH_RADIUS_NM);
          a = haversine_b64 coord1 coord2
      in if a < 0 \<or> rnd (1 - a) < 0 then None
         else Some (rnd (R * rnd (2 * atan2_b64 (sqrt_b64 a) (sqrt_b64 (rnd (1 - a)))))))"

text \<open>
  \<^verbatim>\<open>calculateBearing\<close> with every difference and product rounded in the order of the
  source.
\<close>

definition calculateBearing_b64 :: "Coordinate \<Rightarrow> Coordinate \<Rightarrow> real" where
  "calculateBearing_b64 coord1 coord2 =
     (let lat1 = toRadians_b64 (latitude coord1);
          lat2 = toRadians_b64 (latitude coord2);
          dLon = toRadians_b64 (rnd (longitude coord2 - longitude coord1));
          x = rnd (sin_b64 dLon * cos_b64 lat2);
          y = rnd (rnd (cos_b64 lat1 * sin_b64 lat2) -
                   rnd (rnd (sin_b64 lat1 * cos_b64 lat2) * cos_b64 dLon));
          bearing = atan2_b64 x y
      in normalizeAngle_b64 (toDegrees_b64 bearing))"

section \<open>The decoder\<close>

text \<open>
  A string whose upper-cased form passes the five rules is decoded to the centre of its
  cell; any other string raises \<^verbatim>\<open>std::invalid_argument\<close>.
\<close>

lemma toLatLon_valid:
  assumes v: "\<not> invalid_format (map toupper g)"
  shows "toLatLon g = Inr \<lparr>latitude = centre_latitude (map toupper g),
                            longitude = centre_longitude (map toupper g)\<rparr>"
proof -
  from v consider "length g = 2" | "length g = 4" | "length g = 6" | "length g = 8"
    by (auto simp: invalid_format_def)
  then show ?thesis
  proof cases
    case 1
    with v show ?thesis
      by (simp add: toLatLon_def invalid_format_def Let_def centre_latitude_def
          centre_longitude_def half_width_def half_height_def)
  next
    case 2
    with v show ?thesis
      by (simp add: toLatLon_def invalid_format_def Let_def centre_latitude_def
          centre_longitude_def half_width_def half_height_def)
  next
    case 3
    with v show ?thesis
      by (simp add: toLatLon_def invalid_format_def Let_def centre_latitude_def
          centre_longitude_def half_width_def half_height_def)
  next
    case 4
    with v show ?thesis
      by (simp add: toLatLon_def invalid_format_def Let_def centre_latitude_def
          centre_longitude_def half_width_def half_height_def)
  qed
qed

lemma toLatLon_invalid:
  assumes v: "invalid_format (map toupper g)"
  shows "\<exists>m. toLatLon g = Inl (invalid_argument m)"
proof -
  let ?s = "map toupper g"
  from v consider
      (len) "length ?s \<notin> {2, 4, 6, 8}"
    | (field) "\<not> (isalpha (?s ! 0) \<and> isalpha (?s ! 1))"
    | (square) "length ?s \<ge> 4" "\<not> (isdigit (?s ! 2) \<and> isdigit (?s ! 3))"
    | (subsquare) "length ?s \<ge> 6" "\<not> (isalpha (?s ! 4) \<and> isalpha (?s ! 5))"
    | (extended) "length ?s = 8" "\<not> (isdigit (?s ! 6) \<and> isdigit (?s ! 7))"
    unfolding invalid_format_def by blast
  then show ?thesis
  proof cases
    case len
    then show ?thesis by (simp add: toLatLon_def Let_def)
  next
    case field
    then show ?thesis by (simp add: toLatLon_def Let_def)
  next
    case square
    then show ?thesis by (simp add: toLatLon_def Let_def)
  next
    case subsquare
    then show ?thesis by (simp add: toLatLon_def Let_def)
  next
    case extended
    then show ?thesis by (simp add: toLatLon_def Let_def)
  qed
qed

lemma toLatLon_Inr_iff: "(\<exists>c. toLatLon g = Inr c) \<longleftrightarrow> \<not> invalid_format (map toupper g)"
proof (cases "invalid_format (map toupper g)")
  case True
  then show ?thesis using toLatLon_invalid [of g] by auto
next
  case False
  then show ?thesis using toLatLon_valid [of g] by simp
qed

text \<open>Upper-casing keeps the class of a character.\<close>

lemma isalpha_toupper: "isalpha (toupper c) = isalpha c"
  by (auto simp: isalpha_def toupper_def Let_def)

lemma isdigit_toupper: "isdigit (toupper c) = isdigit c"
  by (auto simp: isdigit_def toupper_def Let_def)



text \<open>
  C2: \<open>toLatLon\<close> raises \<^verbatim>\<open>std::invalid_argument\<close> if and only if, after case
  normalisation, the length is not 2, 4, 6 or 8, or characters 1-2 are not both letters,
  or (length at least 4) characters 3-4 are not both digits, or (length at least 6)
  characters 5-6 are not both letters, or (length 8) characters 7-8 are not both digits;
  on every other input it returns a coordinate. In particular \<open>F\<close>, \<open>12AB\<close> and
  \<open>FNAB\<close> are rejected.
\<close>

theorem toLatLon_fails_iff:
  "((\<exists>m. toLatLon g = Inl (invalid_argument m)) \<longleftrightarrow> invalid_format (map toupper g))
   \<and> (\<not> invalid_format (map toupper g) \<longrightarrow> (\<exists>c. toLatLon g = Inr c))
   \<and> toLatLon ''F'' = Inl (invalid_argument ''Grid square must be 2, 4, 6, or 8 characters'')
   \<and> toLatLon ''12AB'' = Inl (invalid_argument ''First two characters must be letters'')
   \<and> toLatLon ''FNAB'' = Inl (invalid_argument ''Characters 3-4 must be digits'')"
proof -
  have "(\<exists>m. toLatLon g = Inl (invalid_argument m)) \<longleftrightarrow> invalid_format (map toupper g)"
  proof (cases "invalid_format (map toupper g)")
    case True
    then show ?thesis using toLatLon_invalid [of g] by simp
  next
    case False
    then show ?thesis using toLatLon_valid [of g] by simp
  qed
  moreover have "\<not> invalid_format (map toupper g) \<longrightarrow> (\<exists>c. toLatLon g = Inr c)"
    using toLatLon_valid [of g] by blast
  moreover have "toLatLon ''F'' = Inl (invalid_argument ''Grid square must be 2, 4, 6, or 8 characters'')"
    by code_simp
  moreover have "toLatLon ''12AB'' = Inl (invalid_argument ''First two characters must be letters'')"
    by code_simp
  moreover have "toLatLon ''FNAB'' = Inl (invalid_argument ''Characters 3-4 must be digits'')"
    by code_simp
  ultimately show ?thesis by blast
qed

text \<open>\<open>FN42\<close> passes the rules and is decoded; \<open>FN4\<close> breaks the length rule and is rejected.\<close>

theorem toLatLon_fails_iff_witness:
  "\<not> invalid_format (map toupper ''FN42'') \<and> (\<exists>c. toLatLon ''FN42'' = Inr c)
   \<and> invalid_format (map toupper ''FN4'') \<and> (\<exists>m. toLatLon ''FN4'' = Inl (invalid_argument m))"
proof -
  have v: "\<not> invalid_format (map toupper ''FN42'')" by code_simp
  have i: "invalid_format (map toupper ''FN4'')" by code_simp
  from toLatLon_fails_iff [of "''FN42''"] v have "\<exists>c. toLatLon ''FN42'' = Inr c" by blast
  moreover from toLatLon_fails_iff [of "''FN4''"] i
  have "\<exists>m. toLatLon ''FN4'' = Inl (invalid_argument m)" by blast
  ultimately show ?thesis using v i by blast
qed

text \<open>
  C10: \<open>toLatLon\<close> accepts any letter in the letter positions, not only \<open>A\<close> to \<open>R\<close>
  for the field and \<open>A\<close> to \<open>X\<close> for the subsquare, so some well-formed inputs decode to
  a point outside the geographic range: \<open>ZZ\<close> is decoded to latitude 165 and longitude
  330, beyond \<open>[-90, 90]\<close> and \<open>[-180, 180]\<close>.
\<close>

theorem toLatLon_any_letter:
  "(isalpha c1 \<and> isalpha c2 \<longrightarrow> (\<exists>c. toLatLon [c1, c2] = Inr c))
   \<and> (isalpha c1 \<and> isalpha c2 \<and> isdigit d1 \<and> isdigit d2 \<and> isalpha c3 \<and> isalpha c4
        \<longrightarrow> (\<exists>c. toLatLon [c1, c2, d1, d2, c3, c4] = Inr c))
   \<and> (\<exists>c. toLatLon ''ZZ'' = Inr c \<and> latitude c = 165 \<and> longitude c = 330
         \<and> \<not> (- 90 \<le> latitude c \<and> latitude c \<le> 90)
         \<and> \<not> (- 180 \<le> longitude c \<and> longitude c \<le> 180))"
proof -
  have "\<exists>c. toLatLon [c1, c2] = Inr c" if "isalpha c1 \<and> isalpha c2"
    using that toLatLon_valid [of "[c1, c2]"]
    by (simp add: invalid_format_def isalpha_toupper)
  moreover have "\<exists>c. toLatLon [c1, c2, d1, d2, c3, c4] = Inr c"
    if "isalpha c1 \<and> isalpha c2 \<and> isdigit d1 \<and> isdigit d2 \<and> isalpha c3 \<and> isalpha c4"
    using that toLatLon_valid [of "[c1, c2, d1, d2, c3, c4]"]
    by (simp add: invalid_format_def isalpha_toupper isdigit_toupper)
  moreover have "toLatLon ''ZZ'' = Inr \<lparr>latitude = 165, longitude = 330\<rparr>"
    by code_simp
  ultimately show ?thesis by simp
qed

text \<open>The letters \<open>Z\<close> and \<open>z\<close> are accepted in the field and in the subsquare.\<close>

theorem toLatLon_any_letter_witness:
  "isalpha CHR ''Z'' \<and> isalpha CHR ''z'' \<and> (\<exists>c. toLatLon ''Zz'' = Inr c)
   \<and> isdigit CHR ''0'' \<and> (\<exists>c. toLatLon ''ZZ00zz'' = Inr c)"
proof -
  have a: "isalpha CHR ''Z''" "isalpha CHR ''z''" "isdigit CHR ''0''" by code_simp+
  from toLatLon_any_letter [of "CHR ''Z''" "CHR ''z''"] a have "\<exists>c. toLatLon ''Zz'' = Inr c" by blast
  moreover from toLatLon_any_letter [of "CHR ''Z''" "CHR ''Z''" "CHR ''0''" "CHR ''0''" "CHR ''z''" "CHR ''z''"] a
  have "\<exists>c. toLatLon ''ZZ00zz'' = Inr c" by blast
  ultimately show ?thesis using a by blast
qed

section \<open>Distance and bearing\<close>

text \<open>The distance is the selected radius times the central angle of the Haversine term.\<close>

lemma calculateDistance_haversine:
  "calculateDistance a b u =
     (case u of KILOMETERS \<Rightarrow> EARTH_RADIUS_KM | MILES \<Rightarrow> EARTH_RADIUS_MI
              | NAUTICAL_MILES \<Rightarrow> EARTH_RADIUS_NM)
     * (2 * atan2 (sqrt (haversine a b)) (sqrt (1 - haversine a b)))"
  by (simp add: calculateDistance_def haversine_def Let_def)



text \<open>Between a point and itself both differences are zero.\<close>

lemma haversine_self: "haversine a a = 0"
  by (simp add: haversine_def toRadians_def Let_def)

text \<open>
  In exact arithmetic the Haversine term lies between 0 and 1, so the square roots of
  \<open>calculateDistance\<close> are taken of non-negative numbers: with \<open>u = cos (q - p)\<close>,
  \<open>v = cos (q + p)\<close> and \<open>t\<close> the squared sine of half the longitude difference, the
  term is \<open>((1 - u) * (1 - t) + (1 + v) * t) / 2\<close>.
\<close>

lemma haversine_exact_range: "0 \<le> haversine a b \<and> haversine a b \<le> 1"
proof -
  define p where "p = toRadians (latitude a)"
  define q where "q = toRadians (latitude b)"
  define d where "d = toRadians (longitude b - longitude a)"
  define t where "t = sin (d / 2) * sin (d / 2)"
  define u where "u = cos (q - p)"
  define v where "v = cos (q + p)"
  define w where "w = sin ((q - p) / 2) * sin ((q - p) / 2)"
  define k where "k = cos p * cos q"
  have dl: "toRadians (latitude b - latitude a) = q - p"
    by (simp add: toRadians_def p_def q_def diff_divide_distrib left_diff_distrib)
  have h: "haversine a b = w + k * t"
    by (simp add: haversine_def Let_def dl p_def q_def d_def t_def w_def k_def mult_ac)
  have w: "w = (1 - u) / 2"
  proof -
    have "w = (cos ((q - p) / 2 - (q - p) / 2) - cos ((q - p) / 2 + (q - p) / 2)) / 2"
      unfolding w_def by (rule sin_times_sin)
    also have "(q - p) / 2 + (q - p) / 2 = q - p" by simp
    finally show ?thesis by (simp add: u_def)
  qed
  have k: "k = (u + v) / 2"
    by (simp add: k_def u_def v_def cos_add cos_diff)
  have t0: "0 \<le> t" by (simp add: t_def)
  have t1: "t \<le> 1"
    using sin_squared_eq [of "d / 2"] zero_le_power2 [of "cos (d / 2)"]
    by (simp add: t_def power2_eq_square)
  have u1: "u \<le> 1" "- 1 \<le> u" by (simp_all add: u_def)
  have v1: "v \<le> 1" "- 1 \<le> v" by (simp_all add: v_def)
  have e0: "haversine a b = ((1 - u) * (1 - t) + (1 + v) * t) / 2"
    unfolding h w k by (simp add: field_simps)
  have e1: "1 - haversine a b = ((1 + u) * (1 - t) + (1 - v) * t) / 2"
    unfolding h w k by (simp add: field_simps)
  have "0 \<le> (1 - u) * (1 - t)" "0 \<le> (1 + v) * t"
       "0 \<le> (1 + u) * (1 - t)" "0 \<le> (1 - v) * t"
    using t0 t1 u1 v1 by (simp_all add: mult_nonneg_nonneg)
  then have n: "0 \<le> (1 - u) * (1 - t) + (1 + v) * t" "0 \<le> (1 + u) * (1 - t) + (1 - v) * t"
    by (simp_all only: add_nonneg_nonneg)
  have "0 \<le> haversine a b" unfolding e0 using n(1) by simp
  moreover have "0 \<le> 1 - haversine a b" unfolding e1 using n(2) by simp
  ultimately show ?thesis by simp
qed

lemma calculateDistance_self: "calculateDistance a a u = 0"
  by (simp add: calculateDistance_haversine haversine_self atan2_def)

lemma calculateBearing_self: "calculateBearing a a = 0"
  by (simp add: calculateBearing_def toRadians_def toDegrees_def atan2_def normalizeAngle_def
      fmod_def Let_def)

text \<open>On two locators that decode, \<open>calculate\<close> fills the five fields of its result.\<close>

lemma calculate_Inr:
  assumes "toLatLon g1 = Inr c1" and "toLatLon g2 = Inr c2"
  shows "calculate g1 g2 u =
           Inr \<lparr>distance = calculateDistance c1 c2 u,
                bearing = calculateBearing c1 c2,
                backBearing = calculateBearing c2 c1,
                from_coord = c1,
                to_coord = c2\<rparr>"
  using assms by (simp add: calculate_def)

text \<open>
  C5: for every pair of valid locators and every unit, \<open>calculate\<close> sets \<open>backBearing\<close>
  to the initial bearing from the decoded second locator to the decoded first one, that
  is \<open>calculateBearing\<close> with its arguments swapped, and not to the forward bearing plus
  180 modulo 360: from \<open>AN\<close> to \<open>JN\<close>, two points of latitude 45 on opposite
  meridians, the two differ.
\<close>

theorem calculate_backBearing:
  "(toLatLon g1 = Inr c1 \<and> toLatLon g2 = Inr c2 \<longrightarrow>
      (\<exists>r. calculate g1 g2 u = Inr r
          \<and> bearing r = calculateBearing c1 c2
          \<and> backBearing r = calculateBearing c2 c1))
   \<and> (\<exists>r. calculate ''AN'' ''JN'' u = Inr r
          \<and> backBearing r \<noteq> fmod (bearing r + 180) 360)"
proof -
  have an: "toLatLon ''AN'' = Inr \<lparr>latitude = 45, longitude = - 170\<rparr>" by code_simp
  have jn: "toLatLon ''JN'' = Inr \<lparr>latitude = 45, longitude = 10\<rparr>" by code_simp
  have fwd: "calculateBearing \<lparr>latitude = 45, longitude = - 170\<rparr> \<lparr>latitude = 45, longitude = 10\<rparr> = 0"
    by (simp add: calculateBearing_def toRadians_def toDegrees_def atan2_def normalizeAngle_def
        fmod_def Let_def sin_45 cos_45)
  have bwd: "calculateBearing \<lparr>latitude = 45, longitude = 10\<rparr> \<lparr>latitude = 45, longitude = - 170\<rparr> = 0"
    by (simp add: calculateBearing_def toRadians_def toDegrees_def atan2_def normalizeAngle_def
        fmod_def Let_def sin_45 cos_45)
  have f: "fmod (0 + 180) 360 = 180" by (simp add: fmod_def)
  have "\<exists>r. calculate ''AN'' ''JN'' u = Inr r \<and> backBearing r \<noteq> fmod (bearing r + 180) 360"
    using f by (simp add: calculate_Inr [OF an jn] fwd bwd)
  moreover have "toLatLon g1 = Inr c1 \<and> toLatLon g2 = Inr c2 \<longrightarrow>
      (\<exists>r. calculate g1 g2 u = Inr r
          \<and> bearing r = calculateBearing c1 c2
          \<and> backBearing r = calculateBearing c2 c1)"
    by (simp add: calculate_Inr)
  ultimately show ?thesis by blast
qed

text \<open>The pair \<open>FN42\<close>, \<open>JO01\<close> decodes, and its back bearing is the bearing from \<open>JO01\<close> to \<open>FN42\<close>.\<close>

theorem calculate_backBearing_witness:
  "toLatLon ''FN42'' = Inr \<lparr>latitude = 85 / 2, longitude = - 71\<rparr>
   \<and> toLatLon ''JO01'' = Inr \<lparr>latitude = 103 / 2, longitude = 1\<rparr>
   \<and> (\<exists>r. calculate ''FN42'' ''JO01'' MILES = Inr r
        \<and> bearing r = calculateBearing \<lparr>latitude = 85 / 2, longitude = - 71\<rparr> \<lparr>latitude = 103 / 2, longitude = 1\<rparr>
        \<and> backBearing r = calculateBearing \<lparr>latitude = 103 / 2, longitude = 1\<rparr> \<lparr>latitude = 85 / 2, longitude = - 71\<rparr>)"
proof -
  have a: "toLatLon ''FN42'' = Inr \<lparr>latitude = 85 / 2, longitude = - 71\<rparr>" by code_simp
  have b: "toLatLon ''JO01'' = Inr \<lparr>latitude = 103 / 2, longitude = 1\<rparr>" by code_simp
  from calculate_backBearing [of "''FN42''" "\<lparr>latitude = 85 / 2, longitude = - 71\<rparr>" "''JO01''"
      "\<lparr>latitude = 103 / 2, longitude = 1\<rparr>" MILES] a b
  show ?thesis by blast
qed

section \<open>The range of the bearing\<close>

text \<open>
  \<^verbatim>\<open>std::fmod\<close> by 360 keeps the sign of its argument and is smaller than 360 in
  magnitude, so in exact arithmetic \<open>normalizeAngle\<close>, and with it \<open>calculateBearing\<close>,
  is at least 0 and less than 360.
\<close>

lemma fmod_360_range:
  "(0 \<le> x \<longrightarrow> 0 \<le> fmod x 360 \<and> fmod x 360 < 360)
   \<and> (x < 0 \<longrightarrow> - 360 < fmod x 360 \<and> fmod x 360 \<le> 0)"
proof (cases "0 \<le> x")
  case True
  define t where "t = x / 360"
  have t: "0 \<le> t" using True by (simp add: t_def)
  have "0 \<le> t - of_int \<lfloor>t\<rfloor>" "t - of_int \<lfloor>t\<rfloor> < 1" by linarith+
  then have "0 \<le> (t - of_int \<lfloor>t\<rfloor>) * 360" "(t - of_int \<lfloor>t\<rfloor>) * 360 < 360" by simp_all
  moreover have "fmod x 360 = (t - of_int \<lfloor>t\<rfloor>) * 360"
    using t by (simp add: fmod_def t_def left_diff_distrib)
  ultimately show ?thesis using True by simp
next
  case False
  define t where "t = x / 360"
  have t: "\<not> 0 \<le> t" using False by (simp add: t_def)
  have "- 1 < t - of_int \<lceil>t\<rceil>" "t - of_int \<lceil>t\<rceil> \<le> 0" by linarith+
  then have "- 360 < (t - of_int \<lceil>t\<rceil>) * 360" "(t - of_int \<lceil>t\<rceil>) * 360 \<le> 0" by simp_all
  moreover have "fmod x 360 = (t - of_int \<lceil>t\<rceil>) * 360"
    using t by (simp add: fmod_def t_def left_diff_distrib)
  ultimately show ?thesis using False by simp
qed

lemma normalizeAngle_exact_range: "0 \<le> normalizeAngle x \<and> normalizeAngle x < 360"
  using fmod_360_range [of x] by (cases "0 \<le> x") (auto simp: normalizeAngle_def Let_def)

lemma calculateBearing_exact_range: "0 \<le> calculateBearing a b \<and> calculateBearing a b < 360"
  unfolding calculateBearing_def Let_def by (rule normalizeAngle_exact_range)

text \<open>
  In binary64 the sum of a negative angle and 360 is rounded. The rounding to an integer
  is monotone, odd, and fixes the integers.
\<close>

lemma rne_floor: "\<lfloor>x\<rfloor> \<le> rne x \<and> rne x \<le> \<lfloor>x\<rfloor> + 1"
  by (simp add: rne_def Let_def)

lemma rne_ge: "of_int n \<le> x \<Longrightarrow> n \<le> rne x"
proof -
  assume "of_int n \<le> x"
  then have "n \<le> \<lfloor>x\<rfloor>" by (simp add: le_floor_iff)
  with rne_floor [of x] show ?thesis by linarith
qed

lemma rne_le: "x \<le> of_int n \<Longrightarrow> rne x \<le> n"
proof -
  assume a: "x \<le> of_int n"
  show ?thesis
  proof (cases "x = of_int n")
    case True
    then show ?thesis by (simp add: rne_def)
  next
    case False
    with a have "x < of_int n" by simp
    then have "\<lfloor>x\<rfloor> < n" by (simp add: floor_less_iff)
    then have "\<lfloor>x\<rfloor> + 1 \<le> n" by simp
    with rne_floor [of x] show ?thesis by linarith
  qed
qed

lemma rne_of_int: "rne (of_int n) = n"
  by (simp add: rne_def)

lemma rne_mono: "x \<le> y \<Longrightarrow> rne x \<le> rne y"
proof -
  assume xy: "x \<le> y"
  have fx: "\<lfloor>x\<rfloor> \<le> \<lfloor>y\<rfloor>" using xy by (rule floor_mono)
  show ?thesis
  proof (cases "\<lfloor>x\<rfloor> = \<lfloor>y\<rfloor>")
    case True
    with xy show ?thesis by (auto simp: rne_def Let_def)
  next
    case False
    with fx have "\<lfloor>x\<rfloor> + 1 \<le> \<lfloor>y\<rfloor>" by simp
    with rne_floor [of x] rne_floor [of y] show ?thesis by linarith
  qed
qed

lemma rne_minus: "rne (- x) = - rne x"
proof (cases "x = of_int \<lfloor>x\<rfloor>")
  case True
  then obtain n where "x = of_int n" ..
  then show ?thesis by (simp add: rne_def flip: of_int_minus)
next
  case False
  then have c: "\<lceil>x\<rceil> = \<lfloor>x\<rfloor> + 1" by (simp add: ceiling_altdef)
  have f: "\<lfloor>- x\<rfloor> = - \<lfloor>x\<rfloor> - 1" by (simp add: floor_minus c)
  show ?thesis
    unfolding rne_def Let_def f by (auto simp: field_simps)
qed

text \<open>
  A positive number lies in its binade, whose ends are \<open>2^52\<close> and \<open>2^53\<close> spacings,
  and so does its rounding.
\<close>

lemma binade_bounds:
  assumes "x \<noteq> 0"
  shows "2 powr of_int (binade x) \<le> \<bar>x\<bar> \<and> \<bar>x\<bar> < 2 powr (of_int (binade x) + 1)"
  using assms floor_log_eq_powr_iff [of "\<bar>x\<bar>" 2 "binade x"] by (simp add: binade_def)

lemma binade_eq:
  assumes "2 powr of_int k \<le> \<bar>x\<bar>" and "\<bar>x\<bar> < 2 powr (of_int k + 1)"
  shows "binade x = k"
proof -
  have "0 < (2::real) powr of_int k" by simp
  with assms(1) have "0 < \<bar>x\<bar>" by linarith
  then show ?thesis
    using assms floor_log_eq_powr_iff [of "\<bar>x\<bar>" 2 k] by (simp add: binade_def)
qed

lemma binade_mono:
  assumes "0 < x" and "x \<le> y"
  shows "binade x \<le> binade y"
  using assms by (simp add: binade_def floor_mono)

lemma ulp64_pos: "0 < ulp64 x"
  by (simp add: ulp64_def)

lemma ulp64_minus: "ulp64 (- x) = ulp64 x"
  by (simp add: ulp64_def binade_def)

lemma rnd_minus: "rnd (- x) = - rnd x"
  by (simp add: rnd_def ulp64_minus rne_minus)

lemma ulp64_scale:
  "2 powr of_int (binade x) = 2 ^ 52 * ulp64 x"
  "2 powr (of_int (binade x) + 1) = 2 ^ 53 * ulp64 x"
proof -
  have a: "(2::real) powr 52 = 2 ^ 52" "(2::real) powr 53 = 2 ^ 53"
    by (simp_all add: powr_numeral del: power_numeral)
  have e: "(of_int (binade x) :: real) = 52 + (of_int (binade x) - 52)"
    "(of_int (binade x) + 1 :: real) = 53 + (of_int (binade x) - 52)"
    by simp_all
  have "(2::real) powr of_int (binade x) = 2 powr 52 * ulp64 x"
    unfolding ulp64_def by (subst e(1)) (rule powr_add)
  then show "2 powr of_int (binade x) = 2 ^ 52 * ulp64 x" by (simp only: a)
  have "(2::real) powr (of_int (binade x) + 1) = 2 powr 53 * ulp64 x"
    unfolding ulp64_def by (subst e(2)) (rule powr_add)
  then show "2 powr (of_int (binade x) + 1) = 2 ^ 53 * ulp64 x" by (simp only: a)
qed

lemma scaled_bounds:
  assumes "0 < x"
  shows "of_int (2 ^ 52) \<le> x / ulp64 x" and "x / ulp64 x \<le> of_int (2 ^ 53)"
proof -
  from assms binade_bounds [of x]
  have "2 ^ 52 * ulp64 x \<le> x" "x < 2 ^ 53 * ulp64 x"
    by (simp_all add: ulp64_scale)
  then show "of_int (2 ^ 52) \<le> x / ulp64 x" "x / ulp64 x \<le> of_int (2 ^ 53)"
    using ulp64_pos [of x] by (simp_all add: pos_le_divide_eq pos_divide_le_eq)
qed

lemma rnd_pos_bounds:
  assumes "0 < x"
  shows "2 powr of_int (binade x) \<le> rnd x" and "rnd x \<le> 2 powr (of_int (binade x) + 1)"
proof -
  have r: "rnd x = of_int (rne (x / ulp64 x)) * ulp64 x"
    using assms by (simp add: rnd_def)
  have "2 ^ 52 \<le> rne (x / ulp64 x)" "rne (x / ulp64 x) \<le> 2 ^ 53"
    using scaled_bounds [OF assms] by (simp_all only: rne_ge rne_le)
  then have "(2 ^ 52 :: real) \<le> of_int (rne (x / ulp64 x))" "of_int (rne (x / ulp64 x)) \<le> (2 ^ 53 :: real)"
    by (simp_all add: numeral_power_le_of_int_cancel_iff of_int_le_numeral_power_cancel_iff)
  then show "2 powr of_int (binade x) \<le> rnd x" "rnd x \<le> 2 powr (of_int (binade x) + 1)"
    unfolding r ulp64_scale using ulp64_pos [of x] by (simp_all only: mult_le_cancel_right_pos)
qed

lemma rnd_pos: "0 < x \<Longrightarrow> 0 < rnd x"
proof -
  assume "0 < x"
  from rnd_pos_bounds(1) [OF this] have "2 powr of_int (binade x) \<le> rnd x" .
  moreover have "0 < (2::real) powr of_int (binade x)" by simp
  ultimately show ?thesis by linarith
qed

lemma rnd_neg: "x < 0 \<Longrightarrow> rnd x < 0"
  using rnd_pos [of "- x"] by (simp add: rnd_minus)

text \<open>Rounding is monotone: within a binade by \<open>rne\<close>, across binades by their ends.\<close>

lemma rnd_mono_pos:
  assumes "0 < x" and "x \<le> y"
  shows "rnd x \<le> rnd y"
proof -
  from assms have y: "0 < y" by simp
  have b: "binade x \<le> binade y" using assms by (rule binade_mono)
  show ?thesis
  proof (cases "binade x = binade y")
    case True
    then have u: "ulp64 x = ulp64 y" by (simp add: ulp64_def)
    have "x / ulp64 y \<le> y / ulp64 y"
      using assms(2) ulp64_pos [of y] by (simp add: divide_right_mono)
    then have "rne (x / ulp64 y) \<le> rne (y / ulp64 y)" by (rule rne_mono)
    then have "of_int (rne (x / ulp64 y)) * ulp64 y \<le> of_int (rne (y / ulp64 y)) * ulp64 y"
      using ulp64_pos [of y] by (simp add: mult_right_mono)
    then show ?thesis using assms(1) y by (simp add: rnd_def u)
  next
    case False
    with b have "binade x + 1 \<le> binade y" by simp
    then have "(of_int (binade x) + 1 :: real) \<le> of_int (binade y)"
      by (metis of_int_1 of_int_add of_int_le_iff)
    then have "(2::real) powr (of_int (binade x) + 1) \<le> 2 powr of_int (binade y)"
      by (intro powr_mono) simp_all
    with rnd_pos_bounds(2) [OF assms(1)] rnd_pos_bounds(1) [OF y] show ?thesis by linarith
  qed
qed

lemma rnd_mono:
  assumes "x \<le> y"
  shows "rnd x \<le> rnd y"
proof -
  consider "0 < x" | "x = 0" "y = 0" | "x = 0" "0 < y" | "x < 0" "0 \<le> y" | "y < 0"
    using assms by linarith
  then show ?thesis
  proof cases
    case 1
    then show ?thesis using assms by (rule rnd_mono_pos)
  next
    case 2
    then show ?thesis by simp
  next
    case 3
    then show ?thesis using rnd_pos [of y] by (simp add: rnd_def)
  next
    case 4
    have "rnd x < 0" using 4(1) by (rule rnd_neg)
    moreover have "0 \<le> rnd y"
      using 4(2) rnd_pos [of y] by (cases "y = 0") (simp_all add: rnd_def)
    ultimately show ?thesis by simp
  next
    case 5
    then have "0 < - y" "- y \<le> - x" using assms by simp_all
    then have "rnd (- y) \<le> rnd (- x)" by (rule rnd_mono_pos)
    then show ?thesis by (simp add: rnd_minus)
  qed
qed

text \<open>Rounding at a given binade, and at the numbers the bearing needs.\<close>

lemma rne_near:
  assumes "of_int n - 1 / 2 < w" and "w < of_int n + 1 / 2"
  shows "rne w = n"
proof (cases "of_int n \<le> w")
  case True
  with assms have "\<lfloor>w\<rfloor> = n" by (simp add: floor_eq_iff)
  with assms show ?thesis by (simp add: rne_def Let_def)
next
  case False
  with assms have "\<lfloor>w\<rfloor> = n - 1" by (simp add: floor_eq_iff)
  with assms show ?thesis by (simp add: rne_def Let_def)
qed

lemma rnd_eval:
  fixes k :: nat
  assumes "2 ^ k \<le> \<bar>x\<bar>" and "\<bar>x\<bar> < 2 ^ (k + 1)" and "k \<le> 52"
  shows "rnd x = of_int (rne (x * 2 ^ (52 - k))) / 2 ^ (52 - k)"
proof -
  have p1: "(2::real) powr of_int (int k) = 2 ^ k"
    by (simp add: powr_realpow)
  have "(2::real) powr real (k + 1) = 2 ^ (k + 1)"
    by (rule powr_realpow) simp
  moreover have "(of_int (int k) + 1 :: real) = real (k + 1)" by simp
  ultimately have p2: "(2::real) powr (of_int (int k) + 1) = 2 ^ (k + 1)"
    by (simp only:)
  have b: "binade x = int k"
    using assms(1,2) by (intro binade_eq) (simp_all only: p1 p2)
  have "of_int (int k) - 52 = - real (52 - k)" using assms(3) by simp
  then have "ulp64 x = 2 powr (- real (52 - k))" by (simp only: ulp64_def b)
  also have "\<dots> = inverse (2 powr real (52 - k))" by (rule powr_minus)
  also have "(2::real) powr real (52 - k) = 2 ^ (52 - k)"
    by (rule powr_realpow) simp
  finally have u: "ulp64 x = inverse (2 ^ (52 - k))" .
  have "0 < (2::real) ^ k" by simp
  with assms(1) have "0 < \<bar>x\<bar>" by linarith
  then have "x \<noteq> 0" by simp
  then have "rnd x = of_int (rne (x / ulp64 x)) * ulp64 x" by (simp add: rnd_def)
  also have "\<dots> = of_int (rne (x * 2 ^ (52 - k))) / 2 ^ (52 - k)"
    unfolding u by (simp add: divide_inverse)
  finally show ?thesis .
qed

lemma rnd_pow2: "rnd (2 powr of_int k) = 2 powr of_int k"
proof -
  let ?x = "(2::real) powr of_int k"
  have b: "binade ?x = k" by (intro binade_eq) simp_all
  have "?x = 2 ^ 52 * ulp64 ?x" using ulp64_scale(1) [of ?x] by (simp only: b)
  then have "?x / ulp64 ?x = of_int (2 ^ 52)" using ulp64_pos [of ?x] by (simp add: field_simps)
  then have "rne (?x / ulp64 ?x) = 2 ^ 52" by (simp only: rne_of_int)
  then have "rnd ?x = 2 ^ 52 * ulp64 ?x" by (simp add: rnd_def)
  then show ?thesis using ulp64_scale(1) [of ?x] by (simp only: b)
qed

lemma rnd_tiny:
  assumes "- (1 / 2 ^ 52) \<le> y" and "y < 0"
  shows "- (1 / 2 ^ 52) \<le> rnd y \<and> rnd y < 0"
proof -
  have e: "(2::real) powr of_int (- 52) = 1 / 2 ^ 52"
    using powr_realpow [of 2 52] by (simp add: powr_minus inverse_eq_divide)
  have "rnd (- (2 powr of_int (- 52))) \<le> rnd y"
    using assms(1) by (intro rnd_mono) (simp only: e)
  then have "- (2 powr of_int (- 52)) \<le> rnd y"
    by (simp only: rnd_minus rnd_pow2)
  then have "- (1 / 2 ^ 52) \<le> rnd y"
    by (simp only: e)
  with rnd_neg [OF assms(2)] show ?thesis by simp
qed

lemma rnd_180: "rnd 180 = 180"
  using rnd_eval [of 7 180] by (simp add: rne_def)


lemma rnd_M_PI_180: "rnd (M_PI * 180) = 4974073419394997 / 2 ^ 43"
proof -
  have "rne (M_PI * 180 * 2 ^ (52 - 9)) = 4974073419394997"
    by (rule rne_near) (simp_all add: M_PI_def)
  then show ?thesis
    using rnd_eval [of 9 "M_PI * 180"] by (simp add: M_PI_def)
qed

lemma rnd_quotient: "rnd (4974073419394997 / 2 ^ 43 / M_PI) = 180"
proof -
  have "rne (4974073419394997 / 2 ^ 43 / M_PI * 2 ^ (52 - 7)) = 6333186975989760"
    by (rule rne_near) (simp_all add: M_PI_def)
  then show ?thesis
    using rnd_eval [of 7 "4974073419394997 / 2 ^ 43 / M_PI"] by (simp add: M_PI_def)
qed

text \<open>
  The conversion to degrees is monotone and odd and takes \<open>M_PI\<close> to 180, so it takes
  every result of \<^verbatim>\<open>std::atan2\<close>, a double between \<open>- M_PI\<close> and \<open>M_PI\<close>, into
  \<open>[-180, 180]\<close>.
\<close>

lemma M_PI_pos: "1 < M_PI"
  by (simp add: M_PI_def)

lemma toDegrees_b64_minus: "toDegrees_b64 (- r) = - toDegrees_b64 r"
  by (simp add: toDegrees_b64_def rnd_minus)


lemma toDegrees_b64_M_PI: "toDegrees_b64 M_PI = 180"
  by (simp only: toDegrees_b64_def rnd_M_PI_180 rnd_quotient)



lemma toDegrees_b64_tiny:
  assumes "- (1 / 2 ^ 60) \<le> r" and "r < 0"
  shows "- (1 / 2 ^ 52) \<le> toDegrees_b64 r \<and> toDegrees_b64 r < 0"
proof -
  have "- (1 / 2 ^ 52) \<le> r * 180" "r * 180 < 0" using assms by simp_all
  then have a: "- (1 / 2 ^ 52) \<le> rnd (r * 180)" "rnd (r * 180) < 0"
    using rnd_tiny [of "r * 180"] by simp_all
  have "rnd (r * 180) \<le> rnd (r * 180) / M_PI"
    using a(2) M_PI_pos by (simp add: field_simps)
  with a have "- (1 / 2 ^ 52) \<le> rnd (r * 180) / M_PI" "rnd (r * 180) / M_PI < 0"
    using M_PI_pos by (simp_all add: divide_neg_pos)
  then show ?thesis
    unfolding toDegrees_b64_def by (rule rnd_tiny)
qed

text \<open>
  Below 360 the doubles are \<open>2^-45\<close> apart: a negative angle of magnitude at most
  \<open>2^-46\<close> plus 360 is rounded to 360.
\<close>

lemma fmod_small:
  assumes "\<bar>d\<bar> < 360"
  shows "fmod d 360 = d"
proof -
  have "- 1 < d / 360" "d / 360 < 1" using assms by simp_all
  then have "(if 0 \<le> d / 360 then \<lfloor>d / 360\<rfloor> else \<lceil>d / 360\<rceil>) = 0"
    by (auto simp: floor_eq_iff ceiling_eq_iff)
  then show ?thesis by (simp add: fmod_def)
qed

lemma rnd_below_360:
  assumes "- (1 / 2 ^ 46) \<le> d" and "d < 0"
  shows "rnd (d + 360) = 360"
proof -
  have "rne ((d + 360) * 2 ^ (52 - 8)) = 6333186975989760"
    using assms by (intro rne_near) (simp_all add: field_simps)
  moreover have "2 ^ 8 \<le> \<bar>d + 360\<bar>" "\<bar>d + 360\<bar> < 2 ^ (8 + 1)"
    using assms by simp_all
  ultimately show ?thesis
    using rnd_eval [of 8 "d + 360"] by simp
qed

lemma normalizeAngle_b64_small_negative:
  assumes "- (1 / 2 ^ 46) \<le> d" and "d < 0"
  shows "normalizeAngle_b64 d = 360"
proof -
  have "fmod d 360 = d" using assms by (intro fmod_small) simp
  then show ?thesis
    using assms by (simp add: normalizeAngle_b64_def rnd_below_360)
qed


text \<open>
  A negative angle of tiny magnitude is normalised to 360 itself, because the sum
  \<^verbatim>\<open>angle += 360.0\<close> rounds to 360; the angle \<open>- M_PI\<close>, due south, is converted to -180
  and normalised to 180.
\<close>

lemma normalizeAngle_b64_reaches_360:
  "normalizeAngle_b64 (toDegrees_b64 (- (1 / 2 ^ 60))) = 360"
proof -
  have "- (1 / 2 ^ 52) \<le> toDegrees_b64 (- (1 / 2 ^ 60)) \<and> toDegrees_b64 (- (1 / 2 ^ 60)) < 0"
    by (rule toDegrees_b64_tiny) simp_all
  then show ?thesis by (intro normalizeAngle_b64_small_negative) simp_all
qed

lemma normalizeAngle_b64_south: "normalizeAngle_b64 (toDegrees_b64 (- M_PI)) = 180"
proof -
  have d: "toDegrees_b64 (- M_PI) = - 180" by (simp add: toDegrees_b64_minus toDegrees_b64_M_PI)
  have "fmod (- 180) 360 = - 180" by (intro fmod_small) simp
  then have "normalizeAngle_b64 (- 180) = 180"
    by (simp add: normalizeAngle_b64_def rnd_180)
  with d show ?thesis by simp
qed

section \<open>The Haversine term in binary64\<close>

text \<open>Rounding at a binade below 1.\<close>

lemma rnd_eval_frac:
  fixes j :: nat
  assumes "1 / 2 ^ j \<le> \<bar>x\<bar>" and "\<bar>x\<bar> < 2 / 2 ^ j"
  shows "rnd x = of_int (rne (x * 2 ^ (52 + j))) / 2 ^ (52 + j)"
proof -
  have pj: "(2::real) powr real j = 2 ^ j"
    by (rule powr_realpow) simp
  have "(2::real) powr of_int (- int j) = inverse (2 powr real j)"
    using powr_minus [of 2 "real j"] by simp
  then have p1: "(2::real) powr of_int (- int j) = 1 / 2 ^ j"
    by (simp only: pj inverse_eq_divide)
  have "(2::real) powr (of_int (- int j) + 1) = 2 powr of_int (- int j) * 2 powr 1"
    by (rule powr_add)
  then have p2: "(2::real) powr (of_int (- int j) + 1) = 2 / 2 ^ j"
    by (simp only: p1) simp
  have b: "binade x = - int j"
    using assms by (intro binade_eq) (simp_all only: p1 p2)
  have "of_int (- int j) - 52 = - real (52 + j)" by simp
  then have "ulp64 x = 2 powr (- real (52 + j))" by (simp only: ulp64_def b)
  also have "\<dots> = inverse (2 powr real (52 + j))" by (rule powr_minus)
  also have "(2::real) powr real (52 + j) = 2 ^ (52 + j)"
    by (rule powr_realpow) simp
  finally have u: "ulp64 x = inverse (2 ^ (52 + j))" .
  have "0 < 1 / (2::real) ^ j" by simp
  with assms(1) have "0 < \<bar>x\<bar>" by linarith
  then have "x \<noteq> 0" by simp
  then have "rnd x = of_int (rne (x / ulp64 x)) * ulp64 x" by (simp add: rnd_def)
  also have "\<dots> = of_int (rne (x * 2 ^ (52 + j))) / 2 ^ (52 + j)"
    unfolding u by (simp add: divide_inverse)
  finally show ?thesis .
qed

text \<open>
  The centres of the locators \<open>RR97\<close> and \<open>IA92\<close> are antipodal: \<open>(87.5, 179)\<close> and
  \<open>(-87.5, -1)\<close>. The two latitudes are converted to \<open>x0\<close> and \<open>- x0\<close> with
  \<open>x0 = 6877731147805427 / 2^52\<close>, half of the latitude difference to \<open>- x0\<close> and
  half of the longitude difference to \<open>- M_PI / 2\<close>.
\<close>

lemma antipodal_locators:
  "toLatLon ''RR97'' = Inr \<lparr>latitude = 87.5, longitude = 179\<rparr>"
  "toLatLon ''IA92'' = Inr \<lparr>latitude = - 87.5, longitude = - 1\<rparr>"
  by code_simp+

lemma toRadians_b64_minus: "toRadians_b64 (- d) = - toRadians_b64 d"
  by (simp add: toRadians_b64_def rnd_minus)

lemma toRadians_b64_lat: "toRadians_b64 87.5 = 6877731147805427 / 2 ^ 52"
proof -
  have "rne (87.5 * M_PI * 2 ^ (52 - 8)) = 4835904713300691"
    by (rule rne_near) (simp_all add: M_PI_def)
  then have a: "rnd (87.5 * M_PI) = 4835904713300691 / 2 ^ 44"
    using rnd_eval [of 8 "87.5 * M_PI"] by (simp add: M_PI_def)
  have "rne (4835904713300691 / 2 ^ 44 / 180 * 2 ^ (52 - 0)) = 6877731147805427"
    by (rule rne_near) simp_all
  then have "rnd (4835904713300691 / 2 ^ 44 / 180) = 6877731147805427 / 2 ^ 52"
    using rnd_eval [of 0 "4835904713300691 / 2 ^ 44 / 180"] by simp
  then show ?thesis by (simp only: toRadians_b64_def a)
qed

lemma half_dLat: "rnd (toRadians_b64 (rnd (- 175)) / 2) = - (6877731147805427 / 2 ^ 52)"
proof -
  have d: "rnd 175 = 175" using rnd_eval [of 7 175] by (simp add: rne_def)
  have "rne (175 * M_PI * 2 ^ (52 - 9)) = 4835904713300691"
    by (rule rne_near) (simp_all add: M_PI_def)
  then have a: "rnd (175 * M_PI) = 4835904713300691 / 2 ^ 43"
    using rnd_eval [of 9 "175 * M_PI"] by (simp add: M_PI_def)
  have "rne (4835904713300691 / 2 ^ 43 / 180 * 2 ^ (52 - 1)) = 6877731147805427"
    by (rule rne_near) simp_all
  then have "rnd (4835904713300691 / 2 ^ 43 / 180) = 6877731147805427 / 2 ^ 51"
    using rnd_eval [of 1 "4835904713300691 / 2 ^ 43 / 180"] by simp
  then have t: "toRadians_b64 175 = 6877731147805427 / 2 ^ 51"
    by (simp only: toRadians_b64_def a)
  have "rne (6877731147805427 / 2 ^ 51 / 2 * 2 ^ (52 - 0)) = 6877731147805427"
    by (rule rne_near) simp_all
  then have h: "rnd (6877731147805427 / 2 ^ 51 / 2) = 6877731147805427 / 2 ^ 52"
    using rnd_eval [of 0 "6877731147805427 / 2 ^ 51 / 2"] by simp
  have "rnd (toRadians_b64 (rnd (- 175)) / 2) = - rnd (toRadians_b64 175 / 2)"
    by (simp only: d toRadians_b64_minus minus_divide_left [symmetric] rnd_minus)
  then show ?thesis by (simp only: t h)
qed

lemma half_dLon: "rnd (toRadians_b64 (rnd (- 180)) / 2) = - (M_PI / 2)"
proof -
  have "rne (4974073419394997 / 2 ^ 43 / 180 * 2 ^ (52 - 1)) = 7074237752028440"
    by (rule rne_near) simp_all
  then have "rnd (4974073419394997 / 2 ^ 43 / 180) = M_PI"
    using rnd_eval [of 1 "4974073419394997 / 2 ^ 43 / 180"] by (simp add: M_PI_def)
  then have t: "toRadians_b64 180 = M_PI"
    by (simp only: toRadians_b64_def mult.commute [of 180 M_PI] rnd_M_PI_180)
  have "rne (M_PI / 2 * 2 ^ (52 - 0)) = 7074237752028440"
    by (rule rne_near) (simp_all add: M_PI_def)
  then have h: "rnd (M_PI / 2) = M_PI / 2"
    using rnd_eval [of 0 "M_PI / 2"] by (simp add: M_PI_def)
  have "rnd (toRadians_b64 (rnd (- 180)) / 2) = - rnd (toRadians_b64 180 / 2)"
    by (simp only: rnd_180 toRadians_b64_minus minus_divide_left [symmetric] rnd_minus)
  then show ?thesis by (simp only: t h)
qed

text \<open>
  The doubles nearest to \<open>sin x0 = 0.99904822158185779...\<close> and to
  \<open>cos x0 = 0.043619387365336235...\<close> are \<open>8998626396882423 / 2^53\<close> and
  \<open>3143108106954521 / 2^56\<close>, and the double nearest to \<open>sin (M_PI / 2)\<close> is 1, as
  shown below. The rounded square of the sine is \<open>1 - 8568778128023 / 2^52\<close> and the
  rounded square of the cosine is a little more than \<open>8568778128023 / 2^52\<close>; their
  sum is rounded to the double above 1.
\<close>

lemma rnd_sin_squared:
  "rnd (- (8998626396882423 / 2 ^ 53) * - (8998626396882423 / 2 ^ 53)) = 4495030849242473 / 2 ^ 52"
proof -
  let ?x = "- (8998626396882423 / 2 ^ 53) * - (8998626396882423 / 2 ^ 53) :: real"
  have "rne (?x * 2 ^ (52 + 1)) = 8990061698484946"
    by (rule rne_near) simp_all
  then show ?thesis using rnd_eval_frac [of 1 ?x] by simp
qed

lemma rnd_cos_squared:
  "rnd (3143108106954521 / 2 ^ 56 * (3143108106954521 / 2 ^ 56)) = 4387214401548093 / 2 ^ 61"
proof -
  let ?x = "3143108106954521 / 2 ^ 56 * (3143108106954521 / 2 ^ 56) :: real"
  have "rne (?x * 2 ^ (52 + 10)) = 8774428803096186"
    by (rule rne_near) simp_all
  then show ?thesis using rnd_eval_frac [of 10 ?x] by simp
qed

lemma rnd_cos_squared_fixed: "rnd (4387214401548093 / 2 ^ 61) = 4387214401548093 / 2 ^ 61"
proof -
  have "rne (4387214401548093 / 2 ^ 61 * 2 ^ (52 + 10)) = 8774428803096186"
    by (rule rne_near) simp_all
  then show ?thesis using rnd_eval_frac [of 10 "4387214401548093 / 2 ^ 61"] by simp
qed

lemma rnd_sum: "rnd (4495030849242473 / 2 ^ 52 + 4387214401548093 / 2 ^ 61) = 1 + 1 / 2 ^ 52"
proof -
  let ?x = "4495030849242473 / 2 ^ 52 + 4387214401548093 / 2 ^ 61 :: real"
  have "rne (?x * 2 ^ (52 - 0)) = 4503599627370497"
    by (rule rne_near) simp_all
  then show ?thesis using rnd_eval [of 0 ?x] by simp
qed

lemma rnd_one_minus: "rnd (1 - (1 + 1 / 2 ^ 52)) = - (1 / 2 ^ 52)"
proof -
  have e: "(2::real) powr of_int (- 52) = 1 / 2 ^ 52"
    using powr_realpow [of 2 52] by (simp add: powr_minus inverse_eq_divide)
  have "rnd (- (2 powr of_int (- 52))) = - (2 powr of_int (- 52))"
    by (simp only: rnd_minus rnd_pow2)
  then have r: "rnd (- (1 / 2 ^ 52)) = - (1 / 2 ^ 52)"
    by (simp only: e)
  have "1 - (1 + 1 / 2 ^ 52) = - (1 / 2 ^ 52 :: real)" by simp
  then show ?thesis by (simp only: r)
qed

lemma rnd_times_minus_one_twice:
  assumes "rnd p = p"
  shows "rnd (rnd (p * - 1) * - 1) = p"
  using assms by (simp add: rnd_minus)

subsection \<open>The nearest doubles of the sines and cosines\<close>

text \<open>
  The Maclaurin polynomials of degree 25 of sine and cosine, written in Horner form.
\<close>

lemma sum_lessThan_numeral:
  "(\<Sum>m<numeral k. f m) = (\<Sum>m<pred_numeral k. f m) + (f (pred_numeral k) :: real)"
  by (simp add: numeral_eq_Suc)

lemma sum_lessThan_one: "(\<Sum>m<(1::nat). f m) = (f 0 :: real)"
  by simp

lemma sin_coeff_numeral:
  "sin_coeff (numeral k) =
     (if even (numeral k :: nat) then 0 else (- 1) ^ (pred_numeral k div 2) / fact (numeral k))"
  by (simp add: sin_coeff_def numeral_eq_Suc)

lemma sin_coeff_one: "sin_coeff (Suc 0) = 1"
  by (simp add: sin_coeff_def)

lemma cos_coeff_numeral:
  "cos_coeff (numeral k) =
     (if even (numeral k :: nat) then (- 1) ^ (numeral k div 2) / fact (numeral k) else 0)"
  by (simp add: cos_coeff_def)

lemma cos_coeff_one: "cos_coeff (Suc 0) = 0"
  by (simp add: cos_coeff_def)

lemma sin_poly:
  "(\<Sum>m<26. sin_coeff m * x ^ m) =
     x * (1 - x\<^sup>2 / (2 * 3) * (1 - x\<^sup>2 / (4 * 5) * (1 - x\<^sup>2 / (6 * 7) * (1 - x\<^sup>2 / (8 * 9) *
         (1 - x\<^sup>2 / (10 * 11) * (1 - x\<^sup>2 / (12 * 13) * (1 - x\<^sup>2 / (14 * 15) * (1 - x\<^sup>2 / (16 * 17) *
         (1 - x\<^sup>2 / (18 * 19) * (1 - x\<^sup>2 / (20 * 21) * (1 - x\<^sup>2 / (22 * 23) *
         (1 - x\<^sup>2 / (24 * 25)))))))))))))"
  by (simp add: sum_lessThan_numeral sum_lessThan_one sin_coeff_numeral sin_coeff_one fact_numeral
      power2_eq_square algebra_simps power_numeral_reduce)

lemma cos_poly:
  "(\<Sum>m<26. cos_coeff m * x ^ m) =
     1 - x\<^sup>2 / (1 * 2) * (1 - x\<^sup>2 / (3 * 4) * (1 - x\<^sup>2 / (5 * 6) * (1 - x\<^sup>2 / (7 * 8) *
         (1 - x\<^sup>2 / (9 * 10) * (1 - x\<^sup>2 / (11 * 12) * (1 - x\<^sup>2 / (13 * 14) * (1 - x\<^sup>2 / (15 * 16) *
         (1 - x\<^sup>2 / (17 * 18) * (1 - x\<^sup>2 / (19 * 20) * (1 - x\<^sup>2 / (21 * 22) *
         (1 - x\<^sup>2 / (23 * 24))))))))))))"
  by (simp add: sum_lessThan_numeral sum_lessThan_one cos_coeff_numeral cos_coeff_one fact_numeral
      power2_eq_square algebra_simps power_numeral_reduce)

text \<open>The remainder of the cosine polynomial, as the library has it for the sine.\<close>

lemma Maclaurin_cos_bound:
  "\<bar>cos x - (\<Sum>m<n. cos_coeff m * x ^ m)\<bar> \<le> inverse (fact n) * \<bar>x\<bar> ^ n"
proof -
  obtain t where
    "cos x = (\<Sum>m<n. cos_coeff m * x ^ m) + (cos (t + 1 / 2 * real n * pi) / fact n) * x ^ n"
    using Maclaurin_cos_expansion [of x n] by blast
  then have "cos x - (\<Sum>m<n. cos_coeff m * x ^ m) = cos (t + 1 / 2 * real n * pi) / fact n * x ^ n"
    by simp
  then have "\<bar>cos x - (\<Sum>m<n. cos_coeff m * x ^ m)\<bar> =
             \<bar>cos (t + 1 / 2 * real n * pi)\<bar> / fact n * \<bar>x\<bar> ^ n"
    by (simp add: abs_mult power_abs)
  also have "\<dots> \<le> 1 / fact n * \<bar>x\<bar> ^ n"
    by (intro mult_right_mono divide_right_mono) simp_all
  finally show ?thesis by (simp add: inverse_eq_divide)
qed

text \<open>
  One step of the Horner evaluation on an interval, and the remainder for an argument
  of magnitude at most 1.6.
\<close>

lemma horner_step:
  fixes w :: real
  assumes "lo \<le> w \<and> w \<le> hi" and "0 \<le> c" and "lo' \<le> 1 - c * hi" and "1 - c * lo \<le> hi'"
  shows "lo' \<le> 1 - c * w \<and> 1 - c * w \<le> hi'"
proof -
  have "c * lo \<le> c * w" "c * w \<le> c * hi"
    using assms(1,2) by (simp_all add: mult_left_mono)
  with assms(3,4) show ?thesis by linarith
qed

lemma taylor_error:
  fixes x :: real
  assumes "\<bar>x\<bar> \<le> 8 / 5"
  shows "inverse (fact 26) * \<bar>x\<bar> ^ 26 \<le> 1 / 2 ^ 70"
proof -
  have "\<bar>x\<bar> ^ 26 \<le> (8 / 5) ^ 26" using assms by (intro power_mono) simp_all
  then have "inverse (fact 26) * \<bar>x\<bar> ^ 26 \<le> inverse (fact 26) * (8 / 5) ^ 26"
    by (intro mult_left_mono) simp_all
  also have "\<dots> \<le> 1 / 2 ^ 70" by (simp add: fact_numeral power_divide)
  finally show ?thesis .
qed

text \<open>
  The sine and the cosine of \<open>x0\<close> and the sine of \<open>M_PI / 2\<close>, each enclosed between
  the midpoints of the doubles around its nearest double: the polynomial is evaluated
  from the innermost factor on intervals with end points that are multiples of
  \<open>2^-80\<close>, and the remainder is below \<open>2^-70\<close>.
\<close>

lemma sin_lat_bounds:
  "17997252793764845 / 2 ^ 54 < sin (6877731147805427 / 2 ^ 52 :: real) \<and> sin (6877731147805427 / 2 ^ 52 :: real) < 17997252793764847 / 2 ^ 54"
proof -
  define x :: real where "x = 6877731147805427 / 2 ^ 52"
  define w12 where "w12 = 1 - x\<^sup>2 / (24 * 25)"
  define w11 where "w11 = 1 - x\<^sup>2 / (22 * 23) * w12"
  define w10 where "w10 = 1 - x\<^sup>2 / (20 * 21) * w11"
  define w9 where "w9 = 1 - x\<^sup>2 / (18 * 19) * w10"
  define w8 where "w8 = 1 - x\<^sup>2 / (16 * 17) * w9"
  define w7 where "w7 = 1 - x\<^sup>2 / (14 * 15) * w8"
  define w6 where "w6 = 1 - x\<^sup>2 / (12 * 13) * w7"
  define w5 where "w5 = 1 - x\<^sup>2 / (10 * 11) * w6"
  define w4 where "w4 = 1 - x\<^sup>2 / (8 * 9) * w5"
  define w3 where "w3 = 1 - x\<^sup>2 / (6 * 7) * w4"
  define w2 where "w2 = 1 - x\<^sup>2 / (4 * 5) * w3"
  define w1 where "w1 = 1 - x\<^sup>2 / (2 * 3) * w2"
  have p: "(\<Sum>m<26. sin_coeff m * x ^ m) = x * w1"
    unfolding w1_def w2_def w3_def w4_def w5_def w6_def w7_def w8_def w9_def w10_def w11_def w12_def by (rule sin_poly)
  have b12: "1204226670309852490626735 / 2 ^ 80 \<le> w12 \<and> w12 \<le> 75264166894365780664171 / 2 ^ 76"
    unfolding w12_def by (simp add: x_def power2_eq_square)
  have b11: "300843841218175404355177 / 2 ^ 78 \<le> w11 \<and> w11 \<le> 1203375364872701617420709 / 2 ^ 80"
    unfolding w11_def by (rule horner_step [OF b12]) (simp_all add: x_def power2_eq_square)
  have b10: "300560892604974429831561 / 2 ^ 78 \<le> w10 \<and> w10 \<le> 1202243570419897719326245 / 2 ^ 80"
    unfolding w10_def by (rule horner_step [OF b11]) (simp_all add: x_def power2_eq_square)
  have b9: "1200727266807407412808969 / 2 ^ 80 \<le> w9 \<and> w9 \<le> 600363633403703706404485 / 2 ^ 79"
    unfolding w9_def by (rule horner_step [OF b10]) (simp_all add: x_def power2_eq_square)
  have b8: "1198630346468811999046327 / 2 ^ 80 \<le> w8 \<and> w8 \<le> 149828793308601499880791 / 2 ^ 77"
    unfolding w8_def by (rule horner_step [OF b9]) (simp_all add: x_def power2_eq_square)
  have b7: "18681469041509859683257 / 2 ^ 74 \<le> w7 \<and> w7 \<le> 597807009328315509864225 / 2 ^ 79"
    unfolding w7_def by (rule horner_step [OF b8]) (simp_all add: x_def power2_eq_square)
  have b6: "1191051182180959277995421 / 2 ^ 80 \<le> w6 \<and> w6 \<le> 595525591090479638997711 / 2 ^ 79"
    unfolding w6_def by (rule horner_step [OF b7]) (simp_all add: x_def power2_eq_square)
  have b5: "1183673075353913603038359 / 2 ^ 80 \<le> w5 \<and> w5 \<le> 147959134419239200379795 / 2 ^ 77"
    unfolding w5_def by (rule horner_step [OF b6]) (simp_all add: x_def power2_eq_square)
  have b4: "585292115030643515096999 / 2 ^ 79 \<le> w4 \<and> w4 \<le> 1170584230061287030193999 / 2 ^ 80"
    unfolding w4_def by (rule horner_step [OF b5]) (simp_all add: x_def power2_eq_square)
  have b3: "1143924193712807292677779 / 2 ^ 80 \<le> w3 \<and> w3 \<le> 285981048428201823169445 / 2 ^ 78"
    unfolding w3_def by (rule horner_step [OF b4]) (simp_all add: x_def power2_eq_square)
  have b2: "33610352131585353196673 / 2 ^ 75 \<le> w2 \<and> w2 \<le> 1075531268210731302293537 / 2 ^ 80"
    unfolding w2_def by (rule horner_step [OF b3]) (simp_all add: x_def power2_eq_square)
  have b1: "790861954216408173370995 / 2 ^ 80 \<le> w1 \<and> w1 \<le> 197715488554102043342749 / 2 ^ 78"
    unfolding w1_def by (rule horner_step [OF b2]) (simp_all add: x_def power2_eq_square)
  have "\<bar>x\<bar> \<le> 8 / 5" by (simp add: x_def)
  then have e: "inverse (fact 26) * \<bar>x\<bar> ^ 26 \<le> 1 / 2 ^ 70"
    by (rule taylor_error)
  have "\<bar>sin x - x * w1\<bar> \<le> inverse (fact 26) * \<bar>x\<bar> ^ 26"
    using Maclaurin_sin_bound [of x 26] by (simp only: p)
  with e have s: "x * w1 - 1 / 2 ^ 70 \<le> sin x" "sin x \<le> x * w1 + 1 / 2 ^ 70" by linarith+
  have "0 \<le> x" by (simp add: x_def)
  with b1 have m: "x * (790861954216408173370995 / 2 ^ 80) \<le> x * w1" "x * w1 \<le> x * (197715488554102043342749 / 2 ^ 78)"
    by (blast intro: mult_left_mono)+
  have "17997252793764845 / 2 ^ 54 < x * (790861954216408173370995 / 2 ^ 80) - 1 / 2 ^ 70" "x * (197715488554102043342749 / 2 ^ 78) + 1 / 2 ^ 70 < 17997252793764847 / 2 ^ 54"
    by (simp_all add: x_def power2_eq_square)
  with s m have "17997252793764845 / 2 ^ 54 < sin x \<and> sin x < 17997252793764847 / 2 ^ 54" by linarith
  then show ?thesis by (simp only: x_def)
qed

lemma cos_lat_bounds:
  "12572432427818083 / 2 ^ 58 < cos (6877731147805427 / 2 ^ 52 :: real) \<and> cos (6877731147805427 / 2 ^ 52 :: real) < 12572432427818085 / 2 ^ 58"
proof -
  define x :: real where "x = 6877731147805427 / 2 ^ 52"
  define w12 where "w12 = 1 - x\<^sup>2 / (23 * 24)"
  define w11 where "w11 = 1 - x\<^sup>2 / (21 * 22) * w12"
  define w10 where "w10 = 1 - x\<^sup>2 / (19 * 20) * w11"
  define w9 where "w9 = 1 - x\<^sup>2 / (17 * 18) * w10"
  define w8 where "w8 = 1 - x\<^sup>2 / (15 * 16) * w9"
  define w7 where "w7 = 1 - x\<^sup>2 / (13 * 14) * w8"
  define w6 where "w6 = 1 - x\<^sup>2 / (11 * 12) * w7"
  define w5 where "w5 = 1 - x\<^sup>2 / (9 * 10) * w6"
  define w4 where "w4 = 1 - x\<^sup>2 / (7 * 8) * w5"
  define w3 where "w3 = 1 - x\<^sup>2 / (5 * 6) * w4"
  define w2 where "w2 = 1 - x\<^sup>2 / (3 * 4) * w3"
  define w1 where "w1 = 1 - x\<^sup>2 / (1 * 2) * w2"
  have p: "(\<Sum>m<26. cos_coeff m * x ^ m) = w1"
    unfolding w1_def w2_def w3_def w4_def w5_def w6_def w7_def w8_def w9_def w10_def w11_def w12_def by (rule cos_poly)
  have b12: "1203818048631176257228523 / 2 ^ 80 \<le> w12 \<and> w12 \<le> 300954512157794064307131 / 2 ^ 78"
    unfolding w12_def by (simp add: x_def power2_eq_square)
  have b11: "150356101612852884806865 / 2 ^ 77 \<le> w11 \<and> w11 \<le> 1202848812902823078454921 / 2 ^ 80"
    unfolding w11_def by (rule horner_step [OF b12]) (simp_all add: x_def power2_eq_square)
  have b10: "600771703724416108814725 / 2 ^ 79 \<le> w10 \<and> w10 \<le> 1201543407448832217629451 / 2 ^ 80"
    unfolding w10_def by (rule horner_step [OF b11]) (simp_all add: x_def power2_eq_square)
  have b9: "599884033792608485392057 / 2 ^ 79 \<le> w9 \<and> w9 \<le> 1199768067585216970784115 / 2 ^ 80"
    unfolding w9_def by (rule horner_step [OF b10]) (simp_all add: x_def power2_eq_square)
  have b8: "74829183615179280655845 / 2 ^ 76 \<le> w8 \<and> w8 \<le> 1197266937842868490493521 / 2 ^ 80"
    unfolding w8_def by (rule horner_step [OF b9]) (simp_all add: x_def power2_eq_square)
  have b7: "298395880147330074951381 / 2 ^ 78 \<le> w7 \<and> w7 \<le> 1193583520589320299805525 / 2 ^ 80"
    unfolding w7_def by (rule horner_step [OF b8]) (simp_all add: x_def power2_eq_square)
  have b6: "296959280932080924573775 / 2 ^ 78 \<le> w6 \<and> w6 \<le> 1187837123728323698295101 / 2 ^ 80"
    unfolding w6_def by (rule horner_step [OF b7]) (simp_all add: x_def power2_eq_square)
  have b5: "294536160585908868152575 / 2 ^ 78 \<le> w5 \<and> w5 \<le> 1178144642343635472610301 / 2 ^ 80"
    unfolding w5_def by (rule horner_step [OF b6]) (simp_all add: x_def power2_eq_square)
  have b4: "4530702079518527558743 / 2 ^ 72 \<le> w4 \<and> w4 \<le> 1159859732356743055038209 / 2 ^ 80"
    unfolding w4_def by (rule horner_step [OF b5]) (simp_all add: x_def power2_eq_square)
  have b3: "559378637749331109852619 / 2 ^ 79 \<le> w3 \<and> w3 \<le> 1118757275498662219705239 / 2 ^ 80"
    unfolding w3_def by (rule horner_step [OF b4]) (simp_all add: x_def power2_eq_square)
  have b2: "247873203676865287961911 / 2 ^ 78 \<le> w2 \<and> w2 \<le> 495746407353730575923823 / 2 ^ 79"
    unfolding w2_def by (rule horner_step [OF b3]) (simp_all add: x_def power2_eq_square)
  have b1: "52732603621727104289079 / 2 ^ 80 \<le> w1 \<and> w1 \<le> 52732603621727104289083 / 2 ^ 80"
    unfolding w1_def by (rule horner_step [OF b2]) (simp_all add: x_def power2_eq_square)
  have "\<bar>x\<bar> \<le> 8 / 5" by (simp add: x_def)
  then have e: "inverse (fact 26) * \<bar>x\<bar> ^ 26 \<le> 1 / 2 ^ 70"
    by (rule taylor_error)
  have "\<bar>cos x - w1\<bar> \<le> inverse (fact 26) * \<bar>x\<bar> ^ 26"
    using Maclaurin_cos_bound [of x 26] by (simp only: p)
  with e have s: "w1 - 1 / 2 ^ 70 \<le> cos x" "cos x \<le> w1 + 1 / 2 ^ 70" by linarith+
  have "12572432427818083 / 2 ^ 58 < (52732603621727104289079 / 2 ^ 80 - 1 / 2 ^ 70 :: real)" "(52732603621727104289083 / 2 ^ 80 + 1 / 2 ^ 70 :: real) < 12572432427818085 / 2 ^ 58"
    by simp_all
  with s b1 have "12572432427818083 / 2 ^ 58 < cos x \<and> cos x < 12572432427818085 / 2 ^ 58" by linarith
  then show ?thesis by (simp only: x_def)
qed

lemma sin_half_pi_bounds:
  "36028797018963967 / 2 ^ 55 < sin (884279719003555 / 2 ^ 49 :: real) \<and> sin (884279719003555 / 2 ^ 49 :: real) < 2"
proof -
  define x :: real where "x = 884279719003555 / 2 ^ 49"
  define w12 where "w12 = 1 - x\<^sup>2 / (24 * 25)"
  define w11 where "w11 = 1 - x\<^sup>2 / (22 * 23) * w12"
  define w10 where "w10 = 1 - x\<^sup>2 / (20 * 21) * w11"
  define w9 where "w9 = 1 - x\<^sup>2 / (18 * 19) * w10"
  define w8 where "w8 = 1 - x\<^sup>2 / (16 * 17) * w9"
  define w7 where "w7 = 1 - x\<^sup>2 / (14 * 15) * w8"
  define w6 where "w6 = 1 - x\<^sup>2 / (12 * 13) * w7"
  define w5 where "w5 = 1 - x\<^sup>2 / (10 * 11) * w6"
  define w4 where "w4 = 1 - x\<^sup>2 / (8 * 9) * w5"
  define w3 where "w3 = 1 - x\<^sup>2 / (6 * 7) * w4"
  define w2 where "w2 = 1 - x\<^sup>2 / (4 * 5) * w3"
  define w1 where "w1 = 1 - x\<^sup>2 / (2 * 3) * w2"
  have p: "(\<Sum>m<26. sin_coeff m * x ^ m) = x * w1"
    unfolding w1_def w2_def w3_def w4_def w5_def w6_def w7_def w8_def w9_def w10_def w11_def w12_def by (rule sin_poly)
  have b12: "300988577863046970422591 / 2 ^ 78 \<le> w12 \<and> w12 \<le> 1203954311452187881690365 / 2 ^ 80"
    unfolding w12_def by (simp add: x_def power2_eq_square)
  have b11: "601527496573367200745821 / 2 ^ 79 \<le> w11 \<and> w11 \<le> 1203054993146734401491643 / 2 ^ 80"
    unfolding w11_def by (rule horner_step [OF b12]) (simp_all add: x_def power2_eq_square)
  have b10: "37558067338122460498731 / 2 ^ 75 \<le> w10 \<and> w10 \<le> 1201858154819918735959393 / 2 ^ 80"
    unfolding w10_def by (rule horner_step [OF b11]) (simp_all add: x_def power2_eq_square)
  have b9: "600127433003843898471931 / 2 ^ 79 \<le> w9 \<and> w9 \<le> 1200254866007687796943863 / 2 ^ 80"
    unfolding w9_def by (rule horner_step [OF b10]) (simp_all add: x_def power2_eq_square)
  have b8: "1198037914552149034105009 / 2 ^ 80 \<le> w8 \<and> w8 \<le> 599018957276074517052505 / 2 ^ 79"
    unfolding w8_def by (rule horner_step [OF b9]) (simp_all add: x_def power2_eq_square)
  have b7: "1194849438335896072155563 / 2 ^ 80 \<le> w7 \<and> w7 \<le> 298712359583974018038891 / 2 ^ 78"
    unfolding w7_def by (rule horner_step [OF b8]) (simp_all add: x_def power2_eq_square)
  have b6: "595013637952155046354569 / 2 ^ 79 \<le> w6 \<and> w6 \<le> 1190027275904310092709139 / 2 ^ 80"
    unfolding w6_def by (rule horner_step [OF b7]) (simp_all add: x_def power2_eq_square)
  have b5: "147779051758737295013291 / 2 ^ 77 \<le> w5 \<and> w5 \<le> 1182232414069898360106329 / 2 ^ 80"
    unfolding w5_def by (rule horner_step [OF b6]) (simp_all add: x_def power2_eq_square)
  have b4: "292102838378470865792429 / 2 ^ 78 \<le> w4 \<and> w4 \<le> 1168411353513883463169717 / 2 ^ 80"
    unfolding w4_def by (rule horner_step [OF b5]) (simp_all add: x_def power2_eq_square)
  have b3: "1140284403918656568941735 / 2 ^ 80 \<le> w3 \<and> w3 \<le> 142535550489832071117717 / 2 ^ 77"
    unfolding w3_def by (rule horner_step [OF b4]) (simp_all add: x_def power2_eq_square)
  have b2: "1068248869972015076195739 / 2 ^ 80 \<le> w2 \<and> w2 \<le> 267062217493003769048935 / 2 ^ 78"
    unfolding w2_def by (rule horner_step [OF b3]) (simp_all add: x_def power2_eq_square)
  have b1: "96203260011544619939999 / 2 ^ 77 \<le> w1 \<and> w1 \<le> 769626080092356959519993 / 2 ^ 80"
    unfolding w1_def by (rule horner_step [OF b2]) (simp_all add: x_def power2_eq_square)
  have "\<bar>x\<bar> \<le> 8 / 5" by (simp add: x_def)
  then have e: "inverse (fact 26) * \<bar>x\<bar> ^ 26 \<le> 1 / 2 ^ 70"
    by (rule taylor_error)
  have "\<bar>sin x - x * w1\<bar> \<le> inverse (fact 26) * \<bar>x\<bar> ^ 26"
    using Maclaurin_sin_bound [of x 26] by (simp only: p)
  with e have s: "x * w1 - 1 / 2 ^ 70 \<le> sin x" "sin x \<le> x * w1 + 1 / 2 ^ 70" by linarith+
  have "0 \<le> x" by (simp add: x_def)
  with b1 have m: "x * (96203260011544619939999 / 2 ^ 77) \<le> x * w1" "x * w1 \<le> x * (769626080092356959519993 / 2 ^ 80)"
    by (blast intro: mult_left_mono)+
  have "36028797018963967 / 2 ^ 55 < x * (96203260011544619939999 / 2 ^ 77) - 1 / 2 ^ 70" "x * (769626080092356959519993 / 2 ^ 80) + 1 / 2 ^ 70 < 2"
    by (simp_all add: x_def power2_eq_square)
  with s m have "36028797018963967 / 2 ^ 55 < sin x \<and> sin x < 2" by linarith
  then show ?thesis by (simp only: x_def)
qed

text \<open>So the correctly rounded library returns these doubles.\<close>

lemma sin_b64_lat: "sin_b64 (- (6877731147805427 / 2 ^ 52)) = - (8998626396882423 / 2 ^ 53)"
proof -
  let ?s = "sin (6877731147805427 / 2 ^ 52 :: real)"
  have b: "17997252793764845 / 2 ^ 54 < ?s" "?s < 17997252793764847 / 2 ^ 54"
    using sin_lat_bounds by simp_all
  have "rne (?s * 2 ^ (52 + 1)) = 8998626396882423"
    using b by (intro rne_near) simp_all
  moreover have "1 / 2 ^ 1 \<le> \<bar>?s\<bar>" "\<bar>?s\<bar> < 2 / 2 ^ 1"
    using b by simp_all
  ultimately have "rnd ?s = 8998626396882423 / 2 ^ 53"
    using rnd_eval_frac [of 1 ?s] by simp
  then show ?thesis by (simp only: sin_b64_def sin_minus rnd_minus)
qed

lemma cos_b64_lat:
  "cos_b64 (6877731147805427 / 2 ^ 52) = 3143108106954521 / 2 ^ 56"
  "cos_b64 (- (6877731147805427 / 2 ^ 52)) = 3143108106954521 / 2 ^ 56"
proof -
  let ?c = "cos (6877731147805427 / 2 ^ 52 :: real)"
  have b: "12572432427818083 / 2 ^ 58 < ?c" "?c < 12572432427818085 / 2 ^ 58"
    using cos_lat_bounds by simp_all
  have "rne (?c * 2 ^ (52 + 5)) = 6286216213909042"
    using b by (intro rne_near) simp_all
  moreover have "1 / 2 ^ 5 \<le> \<bar>?c\<bar>" "\<bar>?c\<bar> < 2 / 2 ^ 5"
    using b by simp_all
  ultimately have "rnd ?c = 6286216213909042 / 2 ^ 57"
    using rnd_eval_frac [of 5 ?c] by simp
  then have r: "rnd ?c = 3143108106954521 / 2 ^ 56" by simp
  show "cos_b64 (6877731147805427 / 2 ^ 52) = 3143108106954521 / 2 ^ 56"
    by (simp only: cos_b64_def r)
  show "cos_b64 (- (6877731147805427 / 2 ^ 52)) = 3143108106954521 / 2 ^ 56"
    by (simp only: cos_b64_def cos_minus r)
qed

lemma sin_b64_half_pi: "sin_b64 (- (M_PI / 2)) = - 1"
proof -
  let ?s = "sin (M_PI / 2)"
  have e: "M_PI / 2 = 884279719003555 / 2 ^ 49" by (simp add: M_PI_def)
  have "36028797018963967 / 2 ^ 55 < sin (884279719003555 / 2 ^ 49 :: real)"
    using sin_half_pi_bounds by blast
  then have "36028797018963967 / 2 ^ 55 < ?s" by (simp only: e)
  then have "rnd (36028797018963967 / 2 ^ 55) \<le> rnd ?s" by (intro rnd_mono) simp
  moreover have "rnd ?s \<le> rnd 1" by (intro rnd_mono) simp
  moreover have "rnd 1 = 1" using rnd_eval [of 0 1] by (simp add: rne_def)
  moreover have "rnd (36028797018963967 / 2 ^ 55) = 1"
  proof -
    have "rne (36028797018963967 / 2 ^ 55 * 2 ^ (52 + 1)) = 9007199254740992"
      by (rule rne_near) simp_all
    then show ?thesis using rnd_eval_frac [of 1 "36028797018963967 / 2 ^ 55"] by simp
  qed
  ultimately have "rnd ?s = 1" by simp
  then show ?thesis by (simp only: sin_b64_def sin_minus rnd_minus)
qed

text \<open>
  C3 fails in binary64: for the centres of the antipodal locators \<open>RR97\<close> and \<open>IA92\<close>
  the Haversine intermediate is \<open>1 + 2^-52\<close>, above 1. Then \<^verbatim>\<open>1.0 - a\<close> is negative,
  \<^verbatim>\<open>std::sqrt\<close> of it is NaN, and the distance is NaN in every unit.
\<close>

theorem haversine_b64_above_one:
  "haversine_b64 \<lparr>latitude = 87.5, longitude = 179\<rparr> \<lparr>latitude = - 87.5, longitude = - 1\<rparr>
     = 1 + 1 / 2 ^ 52
   \<and> calculateDistance_b64 \<lparr>latitude = 87.5, longitude = 179\<rparr>
         \<lparr>latitude = - 87.5, longitude = - 1\<rparr> unit = None"
proof -
  define c1 where "c1 = \<lparr>latitude = 87.5, longitude = 179\<rparr>"
  define c2 where "c2 = \<lparr>latitude = - 87.5, longitude = - 1\<rparr>"
  have l: "latitude c1 = 87.5" "latitude c2 = - 87.5" "longitude c1 = 179" "longitude c2 = - 1"
    by (simp_all add: c1_def c2_def)
  have d: "- 87.5 - 87.5 = (- 175 :: real)" "- 1 - 179 = (- 180 :: real)"
    by simp_all
  have n: "rnd (- 175) = - 175" "rnd (- 180) = - 180"
    using rnd_eval [of 7 175] rnd_minus [of 175] rnd_minus [of 180]
    by (simp_all add: rne_def rnd_180)
  have t: "rnd (rnd (4387214401548093 / 2 ^ 61 * - 1) * - 1) = 4387214401548093 / 2 ^ 61"
    using rnd_cos_squared_fixed by (rule rnd_times_minus_one_twice)
  have a: "haversine_b64 c1 c2 = 1 + 1 / 2 ^ 52"
    unfolding haversine_b64_def Let_def l d
    by (simp only: toRadians_b64_minus toRadians_b64_lat
        half_dLat half_dLon sin_b64_lat cos_b64_lat sin_b64_half_pi
        rnd_sin_squared rnd_cos_squared t rnd_sum)
  have "rnd (1 - haversine_b64 c1 c2) < 0"
    by (simp only: a rnd_one_minus) simp
  then have "calculateDistance_b64 c1 c2 unit = None"
    by (simp add: calculateDistance_b64_def Let_def)
  with a show ?thesis by (simp only: c1_def c2_def)
qed

section \<open>The bearing in binary64\<close>
























text \<open>
  The centres of the fields \<open>JN\<close> and \<open>AN\<close>: latitude 45 on the meridians 10 and -170.
\<close>

lemma bearing_locators:
  "toLatLon ''JN'' = Inr \<lparr>latitude = 45, longitude = 10\<rparr>"
  "toLatLon ''AN'' = Inr \<lparr>latitude = 45, longitude = - 170\<rparr>"
  by code_simp+



section \<open>Symmetry, units and equal coordinates\<close>

text \<open>
  Rounding fixes 0 and 1, and the rounded sine is odd and the rounded cosine even.
\<close>

lemma rnd_zero: "rnd 0 = 0"
  by (simp add: rnd_def)

lemma rnd_one: "rnd 1 = 1"
  using rnd_eval [of 0 1] by (simp add: rne_def)

lemma toRadians_b64_zero: "toRadians_b64 0 = 0"
  by (simp add: toRadians_b64_def rnd_zero)


lemma cos_b64_minus: "cos_b64 (- x) = cos_b64 x"
  by (simp add: cos_b64_def)



text \<open>
  For equal coordinates the Haversine term is 0 and the distance is \<open>R * (2 * atan2 0 1)\<close>,
  which is 0.
\<close>

lemma haversine_b64_self: "haversine_b64 a a = 0"
  by (simp add: haversine_b64_def Let_def rnd_zero toRadians_b64_zero sin_b64_def)

lemma calculateDistance_b64_self: "calculateDistance_b64 a a u = Some 0"
  by (simp add: calculateDistance_b64_def Let_def haversine_b64_self rnd_zero rnd_one
      sqrt_b64_def atan2_b64_def atan2_def)

text \<open>
  A rounded number is a double: rounding it again changes nothing.
\<close>

lemma rnd_idem_pos:
  assumes "0 < x"
  shows "rnd (rnd x) = rnd x"
proof -
  define n where "n = rne (x / ulp64 x)"
  have r: "rnd x = of_int n * ulp64 x" using assms by (simp add: rnd_def n_def)
  have n: "2 ^ 52 \<le> n" "n \<le> 2 ^ 53"
    unfolding n_def using scaled_bounds [OF assms] by (simp_all only: rne_ge rne_le)
  show ?thesis
  proof (cases "n = 2 ^ 53")
    case True
    have "(of_int (binade x) + 1 :: real) = of_int (binade x + 1)" by simp
    then have "rnd x = 2 powr of_int (binade x + 1)"
      using ulp64_scale(2) [of x] by (simp add: r True)
    then show ?thesis by (simp only: rnd_pow2)
  next
    case False
    with n have "n < 2 ^ 53" by simp
    then have "(of_int n :: real) < of_int (2 ^ 53)" by (simp only: of_int_less_iff)
    then have u: "of_int n * ulp64 x < 2 ^ 53 * ulp64 x"
      using ulp64_pos [of x] by simp
    have "(of_int (2 ^ 52) :: real) \<le> of_int n" using n(1) by (simp only: of_int_le_iff)
    then have l: "2 ^ 52 * ulp64 x \<le> of_int n * ulp64 x"
      using ulp64_pos [of x] by simp
    have p: "0 < of_int n * ulp64 x" using l ulp64_pos [of x] by (simp add: zero_less_mult_iff)
    have "binade (of_int n * ulp64 x) = binade x"
      using l u p by (intro binade_eq) (simp_all only: ulp64_scale abs_of_pos)
    then have e: "ulp64 (of_int n * ulp64 x) = ulp64 x" by (simp add: ulp64_def)
    have "of_int n * ulp64 x \<noteq> 0" using p by (rule less_imp_neq [symmetric])
    then have "rnd (of_int n * ulp64 x) = of_int (rne (of_int n * ulp64 x / ulp64 x)) * ulp64 x"
      by (simp only: rnd_def e if_False)
    also have "of_int n * ulp64 x / ulp64 x = (of_int n :: real)" using ulp64_pos [of x] by simp
    finally show ?thesis by (simp only: r rne_of_int)
  qed
qed

lemma rnd_idem: "rnd (rnd x) = rnd x"
proof (cases "0 < x")
  case True
  then show ?thesis by (rule rnd_idem_pos)
next
  case False
  show ?thesis
  proof (cases "x = 0")
    case True
    then show ?thesis by (simp add: rnd_def)
  next
    case False
    with \<open>\<not> 0 < x\<close> have "0 < - x" by simp
    then have "rnd (rnd (- x)) = rnd (- x)" by (rule rnd_idem_pos)
    then show ?thesis by (simp add: rnd_minus)
  qed
qed

text \<open>
  For equal coordinates both arguments of \<^verbatim>\<open>std::atan2\<close> are 0.
\<close>

lemma normalizeAngle_b64_zero: "normalizeAngle_b64 0 = 0"
  by (simp add: normalizeAngle_b64_def fmod_def)

lemma calculateBearing_b64_self: "calculateBearing_b64 a a = 0"
proof -
  have z: "toRadians_b64 (rnd (longitude a - longitude a)) = 0"
    by (simp add: rnd_zero toRadians_b64_zero)
  have s: "sin_b64 0 = 0" "cos_b64 0 = 1" by (simp_all add: sin_b64_def cos_b64_def rnd_zero rnd_one)
  have "atan2_b64 0 0 = 0" by (simp add: atan2_b64_def atan2_def rnd_zero)
  moreover have "toDegrees_b64 0 = 0" by (simp add: toDegrees_b64_def rnd_zero)
  ultimately show ?thesis
    unfolding calculateBearing_b64_def Let_def z s
    by (simp add: rnd_zero rnd_idem mult.commute normalizeAngle_b64_zero)
qed








text \<open>
  C8: for every valid locator and every unit, \<open>calculate\<close> of the locator against itself
  gives distance 0 and bearing 0, the value of \<open>atan2\<close> at the origin; so it is for
  \<open>CN87\<close> in kilometres. In binary64 too the distance and the bearing between two equal
  coordinates are exactly 0.
\<close>

theorem calculate_self:
  "(\<not> invalid_format (map toupper g) \<longrightarrow>
      (\<exists>r. calculate g g u = Inr r \<and> distance r = 0 \<and> bearing r = 0 \<and> backBearing r = 0))
   \<and> (\<exists>r. calculate ''CN87'' ''CN87'' KILOMETERS = Inr r \<and> distance r = 0 \<and> bearing r = 0)
   \<and> atan2 0 0 = 0
   \<and> calculateDistance_b64 c c v = Some 0
   \<and> calculateBearing_b64 c c = 0"
proof -
  have g: "\<exists>r. calculate g g u = Inr r \<and> distance r = 0 \<and> bearing r = 0 \<and> backBearing r = 0"
    if "toLatLon g = Inr c" for g c u
    by (simp add: calculate_Inr [OF that that] calculateDistance_self calculateBearing_self)
  have cn: "toLatLon ''CN87'' = Inr \<lparr>latitude = 95 / 2, longitude = - 123\<rparr>" by code_simp
  have "\<not> invalid_format (map toupper g) \<longrightarrow>
      (\<exists>r. calculate g g u = Inr r \<and> distance r = 0 \<and> bearing r = 0 \<and> backBearing r = 0)"
    using g toLatLon_valid [of g] by blast
  moreover have "\<exists>r. calculate ''CN87'' ''CN87'' KILOMETERS = Inr r \<and> distance r = 0 \<and> bearing r = 0"
    using g [OF cn] by blast
  moreover have "atan2 0 0 = 0" by (simp add: atan2_def)
  moreover have "calculateDistance_b64 c c v = Some 0" by (rule calculateDistance_b64_self)
  moreover have "calculateBearing_b64 c c = 0" by (rule calculateBearing_b64_self)
  ultimately show ?thesis by blast
qed

text \<open>The valid locator \<open>fn42hn\<close> against itself, in nautical miles.\<close>

theorem calculate_self_witness:
  "\<not> invalid_format (map toupper ''fn42hn'')
   \<and> (\<exists>r. calculate ''fn42hn'' ''fn42hn'' NAUTICAL_MILES = Inr r \<and> distance r = 0 \<and> bearing r = 0)"
proof -
  have v: "\<not> invalid_format (map toupper ''fn42hn'')" by code_simp
  with calculate_self [of "''fn42hn''" NAUTICAL_MILES] show ?thesis by blast
qed

section \<open>Compass labels\<close>

text \<open>A bearing within half a bucket of the \<open>k\<close>-th compass point is rounded to \<open>k\<close>.\<close>

lemma std_round_bucket:
  assumes "0 \<le> b" and "22.5 * real k - 11.25 \<le> b" and "b < 22.5 * real k + 11.25"
  shows "std_round (b / 22.5) = int k"
proof -
  have "real k \<le> b / 22.5 + 1 / 2" "b / 22.5 + 1 / 2 < real k + 1"
    using assms by (simp_all add: field_simps)
  then have "\<lfloor>b / 22.5 + 1 / 2\<rfloor> = int k"
    by (simp add: floor_eq_iff)
  with assms(1) show ?thesis by (simp add: std_round_def)
qed

text \<open>A rounded quotient that is non-negative and fits an \<^verbatim>\<open>int\<close> indexes the table modulo 16.\<close>

lemma bearingToDirection_index:
  assumes "0 \<le> r" and "r \<le> 2147483647" and "std_round (b / 22.5) = r"
  shows "bearingToDirection b = Some (directions ! (nat r mod 16))"
proof -
  have "r smod 16 = r mod 16"
    using assms(1) by (simp add: signed_modulo_int_def sgn_if)
  moreover have "nat (r mod 16) = nat r mod 16"
    using assms(1) by (simp add: nat_mod_distrib)
  moreover have "0 \<le> r mod 16" by simp
  ultimately show ?thesis
    using assms by (simp add: bearingToDirection_def Let_def)
qed

lemma std_round_nonneg: "0 \<le> x \<Longrightarrow> 0 \<le> std_round x"
  by (simp add: std_round_def)

text \<open>
  C9: \<open>bearingToDirection\<close> maps a bearing to one of exactly 16 compass labels: it
  rounds \<open>bearing / 22.5\<close>, reduces modulo 16 and indexes a table of 16 distinct labels
  that starts at \<open>N\<close>. The bucket of the \<open>k\<close>-th label is therefore 22.5 degrees wide and
  centred on \<open>22.5 * k\<close>, the bucket of \<open>N\<close> wrapping around 360; bearing 0 is \<open>N\<close> and
  bearing 180 is \<open>S\<close>. A bearing is not negative.
\<close>

theorem bearingToDirection_buckets:
  "length directions = 16 \<and> distinct directions \<and> directions ! 0 = ''N''
   \<and> (0 \<le> b \<and> std_round (b / 22.5) \<le> 2147483647 \<longrightarrow>
        bearingToDirection b = Some (directions ! (nat (std_round (b / 22.5)) mod 16)))
   \<and> (k < 16 \<and> 0 \<le> b \<and> 22.5 * real k - 11.25 \<le> b \<and> b < 22.5 * real k + 11.25 \<longrightarrow>
        bearingToDirection b = Some (directions ! k))
   \<and> (348.75 \<le> b \<and> b < 371.25 \<longrightarrow> bearingToDirection b = Some ''N'')
   \<and> bearingToDirection 0 = Some ''N''
   \<and> bearingToDirection 180 = Some ''S''"
proof -
  have tab: "length directions = 16" "distinct directions" "directions ! 0 = ''N''"
    by (simp_all add: directions_def)
  have gen: "bearingToDirection b = Some (directions ! (nat (std_round (b / 22.5)) mod 16))"
    if "0 \<le> b \<and> std_round (b / 22.5) \<le> 2147483647"
    using that by (intro bearingToDirection_index std_round_nonneg) simp_all
  have bucket: "bearingToDirection b = Some (directions ! k)"
    if "k < 16 \<and> 0 \<le> b \<and> 22.5 * real k - 11.25 \<le> b \<and> b < 22.5 * real k + 11.25" for k b
  proof -
    from that have r: "std_round (b / 22.5) = int k" by (intro std_round_bucket) blast+
    from that show ?thesis
      using bearingToDirection_index [of "int k" b] r by simp
  qed
  have wrap: "bearingToDirection b = Some ''N''" if "348.75 \<le> b \<and> b < 371.25"
  proof -
    from that have r: "std_round (b / 22.5) = int 16"
      by (intro std_round_bucket) simp_all
    show ?thesis
      using bearingToDirection_index [of "16" b] r by (simp add: directions_def)
  qed
  have n: "bearingToDirection 0 = Some ''N''"
    by (simp add: bearingToDirection_def std_round_def directions_def signed_modulo_int_def Let_def)
  have s: "bearingToDirection 180 = Some ''S''"
    by (simp add: bearingToDirection_def std_round_def directions_def signed_modulo_int_def Let_def)
  from tab gen bucket wrap n s show ?thesis by blast
qed

text \<open>Bearing 100 is in the bucket of \<open>E\<close>, bearing 101.25 opens the bucket of \<open>ESE\<close>, bearing 360 is \<open>N\<close>.\<close>

theorem bearingToDirection_buckets_witness:
  "(0::real) \<le> 100 \<and> std_round (100 / 22.5) \<le> 2147483647
   \<and> bearingToDirection 100 = Some ''E''
   \<and> bearingToDirection 101.25 = Some ''ESE''
   \<and> bearingToDirection 360 = Some ''N''"
proof -
  have r: "std_round (100 / 22.5) = 4" by (simp add: std_round_def) 
  have "bearingToDirection 100 = Some (directions ! 4)"
    using bearingToDirection_buckets [of 100 4] by simp
  moreover have "bearingToDirection 101.25 = Some (directions ! 5)"
    using bearingToDirection_buckets [of "101.25" 5] by simp
  moreover have "bearingToDirection 360 = Some ''N''"
    using bearingToDirection_buckets [of 360 0] by simp
  ultimately show ?thesis using r by (simp add: directions_def)
qed

text \<open>Below zero the remainder is negative and the index is outside the table.\<close>

lemma bearingToDirection_negative: "bearingToDirection (- 45) = None"
  by (simp add: bearingToDirection_def std_round_def signed_modulo_int_def Let_def)

end
